theory Spec2Isabelle
  imports Main
begin

section \<open>Data model of the Tetris component\<close>

text \<open>
  The component keeps its state in React state cells.  A function defined in the
  component body reads the values of the render it was created in (its closure) and
  writes through setters, whose updates are applied to the pending state in the order of
  the calls.  Every modelled function therefore takes the closure snapshot \<open>cl\<close> it
  reads from and, when it calls setters, the pending state \<open>st\<close> it updates; a handler
  that runs right after a render is called with \<open>st = cl\<close>.

  JavaScript numbers are modelled as \<open>int\<close> (every number of the program is an
  integer), the score as \<open>number\<close> because the score table may be read out of range.
\<close>

datatype TetrominoType = TypeI | TypeO | TypeT | TypeS | TypeZ | TypeJ | TypeL

record Position =
  pos_x :: int
  pos_y :: int

text \<open>A shape cell is a number, or \<open>None\<close> for JavaScript's \<open>undefined\<close>
  (what reading a row beyond its length gives).\<close>

type_synonym Shape = "int option list list"

record Tetromino =
  type :: TetrominoType
  shape :: Shape
  color :: string

text \<open>A board cell is \<open>null\<close>, a colour string, or \<open>undefined\<close> (a read or a hole
  beyond the end of a row).\<close>

datatype Cell = Null | Undefined | Color string

type_synonym Board = "Cell list list"

datatype number = Num int | NaN

datatype error = TypeError

text \<open>The result of a function that may throw and may loop: \<open>None\<close> is a call that never
  returns, \<open>Some (Inl e)\<close> an uncaught exception, \<open>Some (Inr v)\<close> the value returned.\<close>

type_synonym 'a outcome = "(error + 'a) option"

record State =
  board :: Board
  currentPiece :: "Tetromino option"
  position :: Position
  nextPiece :: "Tetromino option"
  heldPiece :: "Tetromino option"
  canHold :: bool
  score :: number
  level :: int
  lines :: int
  gameOver :: bool
  paused :: bool
  gameStarted :: bool
  speed :: int
  combo :: int
  ghostPosition :: Position

definition TETROMINOES :: "TetrominoType \<Rightarrow> Shape \<times> string" where
  "TETROMINOES t = (case t of
       TypeI \<Rightarrow> ([[Some 1, Some 1, Some 1, Some 1]], ''#00f0f0'')
     | TypeO \<Rightarrow> ([[Some 1, Some 1], [Some 1, Some 1]], ''#f0f000'')
     | TypeT \<Rightarrow> ([[Some 0, Some 1, Some 0], [Some 1, Some 1, Some 1]], ''#a000f0'')
     | TypeS \<Rightarrow> ([[Some 0, Some 1, Some 1], [Some 1, Some 1, Some 0]], ''#00f000'')
     | TypeZ \<Rightarrow> ([[Some 1, Some 1, Some 0], [Some 0, Some 1, Some 1]], ''#f00000'')
     | TypeJ \<Rightarrow> ([[Some 1, Some 0, Some 0], [Some 1, Some 1, Some 1]], ''#0000f0'')
     | TypeL \<Rightarrow> ([[Some 0, Some 0, Some 1], [Some 1, Some 1, Some 1]], ''#f0a000''))"

definition BOARD_WIDTH :: int where "BOARD_WIDTH = 10"
definition BOARD_HEIGHT :: int where "BOARD_HEIGHT = 20"
definition INITIAL_SPEED :: int where "INITIAL_SPEED = 1000"
definition MIN_SPEED :: int where "MIN_SPEED = 100"

section \<open>Reads and writes of JavaScript arrays and values\<close>

text \<open>\<open>row[i]\<close> for a board row: \<open>undefined\<close> beyond the end of the row.\<close>

definition getCell :: "Cell list \<Rightarrow> nat \<Rightarrow> Cell" where
  "getCell row i = (if i < length row then row ! i else Undefined)"

text \<open>\<open>row[i]\<close> for a shape row.\<close>

definition getNum :: "int option list \<Rightarrow> nat \<Rightarrow> int option" where
  "getNum row i = (if i < length row then row ! i else None)"

text \<open>Truthiness: \<open>null\<close>, \<open>undefined\<close>, the empty string and \<open>0\<close> are falsy.\<close>

fun truthyCell :: "Cell \<Rightarrow> bool" where
  "truthyCell Null = False"
| "truthyCell Undefined = False"
| "truthyCell (Color s) = (s \<noteq> [])"

fun truthyNum :: "int option \<Rightarrow> bool" where
  "truthyNum None = False"
| "truthyNum (Some n) = (n \<noteq> 0)"

text \<open>\<open>row[i] = v\<close>: a negative index sets a property that no element read sees, an index
  beyond the end extends the row, leaving holes that read as \<open>undefined\<close>.\<close>

definition setIndex :: "Cell list \<Rightarrow> int \<Rightarrow> Cell \<Rightarrow> Cell list" where
  "setIndex row i v =
     (if i < 0 then row
      else if nat i < length row then row[nat i := v]
      else row @ replicate (nat i - length row) Undefined @ [v])"

text \<open>\<open>newBoard[boardY][boardX] = v\<close> for \<open>boardY \<ge> 0\<close>: a TypeError when the row does
  not exist.\<close>

definition writeCell :: "Board \<Rightarrow> int \<Rightarrow> int \<Rightarrow> Cell \<Rightarrow> error + Board" where
  "writeCell newBoard boardY boardX v =
     (if nat boardY < length newBoard
      then Inr (newBoard[nat boardY := setIndex (newBoard ! nat boardY) boardX v])
      else Inl TypeError)"

fun addNum :: "number \<Rightarrow> number \<Rightarrow> number" where
  "addNum (Num a) (Num b) = Num (a + b)"
| "addNum _ _ = NaN"

section \<open>Pieces\<close>

definition createEmptyBoard :: Board where
  "createEmptyBoard = replicate (nat BOARD_HEIGHT) (replicate (nat BOARD_WIDTH) Null)"

text \<open>The argument is the kind drawn by
  \<open>types[Math.floor(Math.random() * types.length)]\<close>.\<close>

definition createRandomTetromino :: "TetrominoType \<Rightarrow> Tetromino" where
  "createRandomTetromino t =
     \<lparr>type = t, shape = fst (TETROMINOES t), color = snd (TETROMINOES t)\<rparr>"

text \<open>\<open>piece.shape[0].map\<close> throws when the shape has no row.\<close>

definition rotatePiece :: "Tetromino \<Rightarrow> error + Tetromino" where
  "rotatePiece piece =
     (case shape piece of
        [] \<Rightarrow> Inl TypeError
      | row0 # _ \<Rightarrow>
          Inr (piece\<lparr>shape :=
                 map (\<lambda>i. rev (map (\<lambda>row. getNum row i) (shape piece))) [0..<length row0]\<rparr>))"

section \<open>Collision validator\<close>

text \<open>The condition of the inner \<open>if\<close>, with JavaScript's left-to-right evaluation:
  \<open>checkBoard[newY][newX]\<close> is only read for a row index in \<open>[0, BOARD_HEIGHT)\<close> and
  throws when the board has no such row.\<close>

definition collides :: "Board \<Rightarrow> int \<Rightarrow> int \<Rightarrow> error + bool" where
  "collides checkBoard newX newY =
     (if newX < 0 \<or> newX \<ge> BOARD_WIDTH \<or> newY \<ge> BOARD_HEIGHT then Inr True
      else if newY \<ge> 0 then
        (if nat newY < length checkBoard
         then Inr (truthyCell (getCell (checkBoard ! nat newY) (nat newX)))
         else Inl TypeError)
      else Inr False)"

text \<open>The inner loop over the cells of shape row \<open>y\<close>, from column \<open>x\<close> on.\<close>

fun validCells :: "Board \<Rightarrow> Position \<Rightarrow> int \<Rightarrow> int option list \<Rightarrow> int \<Rightarrow> error + bool" where
  "validCells checkBoard pos y [] x = Inr True"
| "validCells checkBoard pos y (c # cs) x =
     (if truthyNum c then
        (case collides checkBoard (pos_x pos + x) (pos_y pos + y) of
           Inl e \<Rightarrow> Inl e
         | Inr True \<Rightarrow> Inr False
         | Inr False \<Rightarrow> validCells checkBoard pos y cs (x + 1))
      else validCells checkBoard pos y cs (x + 1))"

text \<open>The outer loop over the shape rows, from row \<open>y\<close> on.\<close>

fun validRows :: "Board \<Rightarrow> Position \<Rightarrow> Shape \<Rightarrow> int \<Rightarrow> error + bool" where
  "validRows checkBoard pos [] y = Inr True"
| "validRows checkBoard pos (r # rs) y =
     (case validCells checkBoard pos y r 0 of
        Inl e \<Rightarrow> Inl e
      | Inr False \<Rightarrow> Inr False
      | Inr True \<Rightarrow> validRows checkBoard pos rs (y + 1))"

text \<open>No caller passes \<open>testBoard\<close>, so the board checked is always the board of the
  closure.\<close>

definition isValidPosition :: "State \<Rightarrow> Tetromino \<Rightarrow> Position \<Rightarrow> Board option \<Rightarrow> error + bool" where
  "isValidPosition cl piece pos testBoard =
     (let checkBoard = (case testBoard of Some b \<Rightarrow> b | None \<Rightarrow> board cl)
      in validRows checkBoard pos (shape piece) 0)"

section \<open>Ghost projection\<close>

partial_function (option) ghostLoop :: "State \<Rightarrow> Tetromino \<Rightarrow> int \<Rightarrow> int \<Rightarrow> int outcome" where
  "ghostLoop cl piece px ghostY =
     (case isValidPosition cl piece \<lparr>pos_x = px, pos_y = ghostY + 1\<rparr> None of
        Inl e \<Rightarrow> Some (Inl e)
      | Inr ok \<Rightarrow> if ok then ghostLoop cl piece px (ghostY + 1) else Some (Inr ghostY))"

declare ghostLoop.simps [code]

definition calculateGhostPosition :: "State \<Rightarrow> Tetromino \<Rightarrow> Position \<Rightarrow> Position outcome" where
  "calculateGhostPosition cl piece pos =
     (case ghostLoop cl piece (pos_x pos) (pos_y pos) of
        None \<Rightarrow> None
      | Some (Inl e) \<Rightarrow> Some (Inl e)
      | Some (Inr ghostY) \<Rightarrow> Some (Inr \<lparr>pos_x = pos_x pos, pos_y = ghostY\<rparr>))"

section \<open>Hard-drop loop\<close>

partial_function (option) dropLoop ::
    "State \<Rightarrow> Tetromino \<Rightarrow> Position \<Rightarrow> int \<Rightarrow> (Position \<times> int) outcome" where
  "dropLoop cl piece newPos dropDistance =
     (case isValidPosition cl piece \<lparr>pos_x = pos_x newPos, pos_y = pos_y newPos + 1\<rparr> None of
        Inl e \<Rightarrow> Some (Inl e)
      | Inr ok \<Rightarrow>
          if ok then dropLoop cl piece (newPos\<lparr>pos_y := pos_y newPos + 1\<rparr>) (dropDistance + 1)
          else Some (Inr (newPos, dropDistance)))"

declare dropLoop.simps [code]

section \<open>Line clearing and scoring\<close>

text \<open>The \<open>filter\<close> call of \<open>checkLines\<close>, whose callback counts the rows it drops.\<close>

fun filterRows :: "Board \<Rightarrow> nat \<Rightarrow> Board \<times> nat" where
  "filterRows [] linesCleared = ([], linesCleared)"
| "filterRows (row # rows) linesCleared =
     (let isFull = list_all (\<lambda>cell. cell \<noteq> Null) row
      in if isFull then filterRows rows (linesCleared + 1)
         else (case filterRows rows linesCleared of (kept, n) \<Rightarrow> (row # kept, n)))"

text \<open>The \<open>while\<close> loop that puts empty rows on top.\<close>

function padRows :: "Board \<Rightarrow> Board" where
  "padRows newBoard =
     (if int (length newBoard) < BOARD_HEIGHT
      then padRows (replicate (nat BOARD_WIDTH) Null # newBoard)
      else newBoard)"
  by pat_completeness auto
termination
  by (relation "measure (\<lambda>b. nat BOARD_HEIGHT - length b)") (auto simp: BOARD_HEIGHT_def)

text \<open>Lines 115 to 124 of \<open>checkLines\<close>: the new board and the number of lines cleared.\<close>

definition clearFullRows :: "Board \<Rightarrow> Board \<times> nat" where
  "clearFullRows currentBoard =
     (case filterRows currentBoard 0 of (kept, linesCleared) \<Rightarrow> (padRows kept, linesCleared))"

text \<open>\<open>[0, 100, 300, 500, 800][linesCleared]\<close> is \<open>undefined\<close> beyond index 4, and the
  score delta computed from it is \<open>NaN\<close>.\<close>

definition scoreDelta :: "nat \<Rightarrow> int \<Rightarrow> int \<Rightarrow> number" where
  "scoreDelta linesCleared newCombo levelBonus =
     (if linesCleared < length [0, 100, 300, 500, 800 :: int]
      then Num (([0, 100, 300, 500, 800] ! linesCleared + newCombo * 50) * levelBonus)
      else NaN)"

definition checkLines :: "State \<Rightarrow> Board \<Rightarrow> State \<Rightarrow> State" where
  "checkLines cl currentBoard st =
     (case clearFullRows currentBoard of (newBoard, linesCleared) \<Rightarrow>
        if linesCleared > 0 then
          (let st1 = st\<lparr>board := newBoard\<rparr>;
               st2 = st1\<lparr>lines := lines st1 + int linesCleared\<rparr>;
               newCombo = combo cl + 1;
               st3 = st2\<lparr>combo := newCombo\<rparr>;
               st4 = st3\<lparr>score := addNum (score st3) (scoreDelta linesCleared newCombo (level cl))\<rparr>;
               newLevel = lines cl div 10 + 1
           in if newLevel \<noteq> level cl
              then st4\<lparr>level := newLevel,
                        speed := max MIN_SPEED (INITIAL_SPEED - (newLevel - 1) * 100)\<rparr>
              else st4)
        else st\<lparr>combo := 0\<rparr>)"

section \<open>Locking a piece\<close>

text \<open>The inner loop of \<open>mergePiece\<close> over the cells of shape row \<open>y\<close>, from column
  \<open>x\<close> on.  The two nested \<open>if\<close>s of the source, neither with an \<open>else\<close>, are one
  condition here.\<close>

fun mergeCells :: "Board \<Rightarrow> string \<Rightarrow> Position \<Rightarrow> int \<Rightarrow> int option list \<Rightarrow> int \<Rightarrow> error + Board" where
  "mergeCells newBoard col pos y [] x = Inr newBoard"
| "mergeCells newBoard col pos y (c # cs) x =
     (if truthyNum c \<and> pos_y pos + y \<ge> 0 then
        (case writeCell newBoard (pos_y pos + y) (pos_x pos + x) (Color col) of
           Inl e \<Rightarrow> Inl e
         | Inr nb \<Rightarrow> mergeCells nb col pos y cs (x + 1))
      else mergeCells newBoard col pos y cs (x + 1))"

text \<open>The outer loop over the shape rows, from row \<open>y\<close> on.\<close>

fun mergeRows :: "Board \<Rightarrow> string \<Rightarrow> Position \<Rightarrow> Shape \<Rightarrow> int \<Rightarrow> error + Board" where
  "mergeRows newBoard col pos [] y = Inr newBoard"
| "mergeRows newBoard col pos (r # rs) y =
     (case mergeCells newBoard col pos y r 0 of
        Inl e \<Rightarrow> Inl e
      | Inr nb \<Rightarrow> mergeRows nb col pos rs (y + 1))"

text \<open>Lines 97 to 108 of \<open>mergePiece\<close>: the board with the piece written into it.\<close>

definition lockPiece :: "Board \<Rightarrow> Tetromino \<Rightarrow> Position \<Rightarrow> error + Board" where
  "lockPiece b piece pos = mergeRows b (color piece) pos (shape piece) 0"

definition mergePiece :: "State \<Rightarrow> State \<Rightarrow> error + State" where
  "mergePiece cl st =
     (case currentPiece cl of
        None \<Rightarrow> Inr st
      | Some piece \<Rightarrow>
          (case lockPiece (board cl) piece (position cl) of
             Inl e \<Rightarrow> Inl e
           | Inr newBoard \<Rightarrow>
               Inr ((checkLines cl newBoard (st\<lparr>board := newBoard\<rparr>))\<lparr>canHold := True\<rparr>)))"

section \<open>Spawning\<close>

text \<open>\<open>Math.floor(BOARD_WIDTH / 2) - Math.floor(piece.shape[0].length / 2)\<close>; reading
  \<open>length\<close> of \<open>piece.shape[0]\<close> throws when the shape has no row.\<close>

definition spawnX :: "Tetromino \<Rightarrow> error + int" where
  "spawnX piece =
     (case shape piece of
        [] \<Rightarrow> Inl TypeError
      | row0 # _ \<Rightarrow> Inr (BOARD_WIDTH div 2 - int (length row0) div 2))"

text \<open>\<open>r1\<close> and \<open>r2\<close> are the kinds drawn by the two calls of
  \<open>createRandomTetromino\<close>; the first call is made only when no next piece is queued.
  The state left behind by a handler that throws is not modelled.\<close>

definition spawnNewPiece :: "State \<Rightarrow> State \<Rightarrow> TetrominoType \<Rightarrow> TetrominoType \<Rightarrow> State outcome" where
  "spawnNewPiece cl st r1 r2 =
     (let piece = (case nextPiece cl of Some p \<Rightarrow> p | None \<Rightarrow> createRandomTetromino r1);
          newNext = createRandomTetromino r2
      in case spawnX piece of
           Inl e \<Rightarrow> Some (Inl e)
         | Inr startX \<Rightarrow>
             (let start = \<lparr>pos_x = startX, pos_y = 0\<rparr>
              in case isValidPosition cl piece start None of
                   Inl e \<Rightarrow> Some (Inl e)
                 | Inr ok \<Rightarrow>
                     if \<not> ok then Some (Inr (st\<lparr>gameOver := True\<rparr>))
                     else
                       (case calculateGhostPosition cl piece start of
                          None \<Rightarrow> None
                        | Some (Inl e) \<Rightarrow> Some (Inl e)
                        | Some (Inr ghost) \<Rightarrow>
                            Some (Inr (st\<lparr>currentPiece := Some piece, position := start,
                                          nextPiece := Some newNext,
                                          ghostPosition := ghost\<rparr>)))))"

section \<open>Player actions and the gravity tick\<close>

text \<open>A move that is accepted: \<open>setPosition(newPos)\<close>, then the ghost of the piece at
  \<open>newPos\<close>.\<close>

definition commitMove :: "State \<Rightarrow> State \<Rightarrow> Tetromino \<Rightarrow> Position \<Rightarrow> State outcome" where
  "commitMove cl st piece newPos =
     (case calculateGhostPosition cl piece newPos of
        None \<Rightarrow> None
      | Some (Inl e) \<Rightarrow> Some (Inl e)
      | Some (Inr ghost) \<Rightarrow> Some (Inr (st\<lparr>position := newPos, ghostPosition := ghost\<rparr>)))"

text \<open>\<open>mergePiece(); spawnNewPiece()\<close>, both with the closure of the caller.\<close>

definition lockAndSpawn :: "State \<Rightarrow> State \<Rightarrow> TetrominoType \<Rightarrow> TetrominoType \<Rightarrow> State outcome" where
  "lockAndSpawn cl st r1 r2 =
     (case mergePiece cl st of
        Inl e \<Rightarrow> Some (Inl e)
      | Inr st1 \<Rightarrow> spawnNewPiece cl st1 r1 r2)"

text \<open>\<open>moveDown\<close> is the callback of the gravity timer and the soft-drop action.\<close>

definition moveDown :: "State \<Rightarrow> State \<Rightarrow> TetrominoType \<Rightarrow> TetrominoType \<Rightarrow> State outcome" where
  "moveDown cl st r1 r2 =
     (case currentPiece cl of
        None \<Rightarrow> Some (Inr st)
      | Some piece \<Rightarrow>
          if gameOver cl \<or> paused cl then Some (Inr st)
          else
            (let newPos = \<lparr>pos_x = pos_x (position cl), pos_y = pos_y (position cl) + 1\<rparr>
             in case isValidPosition cl piece newPos None of
                  Inl e \<Rightarrow> Some (Inl e)
                | Inr ok \<Rightarrow>
                    if ok then commitMove cl st piece newPos
                    else lockAndSpawn cl st r1 r2))"

definition moveLeft :: "State \<Rightarrow> State \<Rightarrow> State outcome" where
  "moveLeft cl st =
     (case currentPiece cl of
        None \<Rightarrow> Some (Inr st)
      | Some piece \<Rightarrow>
          if gameOver cl \<or> paused cl then Some (Inr st)
          else
            (let newPos = \<lparr>pos_x = pos_x (position cl) - 1, pos_y = pos_y (position cl)\<rparr>
             in case isValidPosition cl piece newPos None of
                  Inl e \<Rightarrow> Some (Inl e)
                | Inr ok \<Rightarrow> if ok then commitMove cl st piece newPos else Some (Inr st)))"

definition moveRight :: "State \<Rightarrow> State \<Rightarrow> State outcome" where
  "moveRight cl st =
     (case currentPiece cl of
        None \<Rightarrow> Some (Inr st)
      | Some piece \<Rightarrow>
          if gameOver cl \<or> paused cl then Some (Inr st)
          else
            (let newPos = \<lparr>pos_x = pos_x (position cl) + 1, pos_y = pos_y (position cl)\<rparr>
             in case isValidPosition cl piece newPos None of
                  Inl e \<Rightarrow> Some (Inl e)
                | Inr ok \<Rightarrow> if ok then commitMove cl st piece newPos else Some (Inr st)))"

definition kicks :: "Position list" where
  "kicks =
     [\<lparr>pos_x = 0, pos_y = 0\<rparr>, \<lparr>pos_x = - 1, pos_y = 0\<rparr>, \<lparr>pos_x = 1, pos_y = 0\<rparr>,
      \<lparr>pos_x = 0, pos_y = - 1\<rparr>, \<lparr>pos_x = - 2, pos_y = 0\<rparr>, \<lparr>pos_x = 2, pos_y = 0\<rparr>]"

text \<open>The \<open>for\<close> loop of \<open>rotate\<close> over the kicks still to try.\<close>

fun tryKicks :: "State \<Rightarrow> State \<Rightarrow> Tetromino \<Rightarrow> Position list \<Rightarrow> State outcome" where
  "tryKicks cl st rotated [] = Some (Inr st)"
| "tryKicks cl st rotated (kick # rest) =
     (let newPos = \<lparr>pos_x = pos_x (position cl) + pos_x kick,
                     pos_y = pos_y (position cl) + pos_y kick\<rparr>
      in case isValidPosition cl rotated newPos None of
           Inl e \<Rightarrow> Some (Inl e)
         | Inr ok \<Rightarrow>
             if ok then
               (case calculateGhostPosition cl rotated newPos of
                  None \<Rightarrow> None
                | Some (Inl e) \<Rightarrow> Some (Inl e)
                | Some (Inr ghost) \<Rightarrow>
                    Some (Inr (st\<lparr>currentPiece := Some rotated, position := newPos,
                                  ghostPosition := ghost\<rparr>)))
             else tryKicks cl st rotated rest)"

text \<open>\<open>rotate\<close> of the source; it is named \<open>rotateAction\<close> here because the list library has
  a \<open>rotate\<close> of its own.\<close>

definition rotateAction :: "State \<Rightarrow> State \<Rightarrow> State outcome" where
  "rotateAction cl st =
     (case currentPiece cl of
        None \<Rightarrow> Some (Inr st)
      | Some piece \<Rightarrow>
          if gameOver cl \<or> paused cl then Some (Inr st)
          else
            (case rotatePiece piece of
               Inl e \<Rightarrow> Some (Inl e)
             | Inr rotated \<Rightarrow> tryKicks cl st rotated kicks))"

text \<open>\<open>hardDrop\<close> up to the call of \<open>setTimeout\<close>; the callback it registers is
  \<open>hardDropTimeout\<close>, which runs 50 ms later with the closure \<open>cl\<close> of the key press on
  the state \<open>st\<close> of that later moment.\<close>

definition hardDrop :: "State \<Rightarrow> State \<Rightarrow> State outcome" where
  "hardDrop cl st =
     (case currentPiece cl of
        None \<Rightarrow> Some (Inr st)
      | Some piece \<Rightarrow>
          if gameOver cl \<or> paused cl then Some (Inr st)
          else
            (case dropLoop cl piece (position cl) 0 of
               None \<Rightarrow> None
             | Some (Inl e) \<Rightarrow> Some (Inl e)
             | Some (Inr (newPos, dropDistance)) \<Rightarrow>
                 Some (Inr (st\<lparr>position := newPos,
                               score := addNum (score st) (Num (dropDistance * 2))\<rparr>))))"

definition hardDropTimeout :: "State \<Rightarrow> State \<Rightarrow> TetrominoType \<Rightarrow> TetrominoType \<Rightarrow> State outcome" where
  "hardDropTimeout cl st r1 r2 = lockAndSpawn cl st r1 r2"

definition holdPiece :: "State \<Rightarrow> State \<Rightarrow> TetrominoType \<Rightarrow> TetrominoType \<Rightarrow> State outcome" where
  "holdPiece cl st r1 r2 =
     (case currentPiece cl of
        None \<Rightarrow> Some (Inr st)
      | Some piece \<Rightarrow>
          if \<not> canHold cl \<or> gameOver cl \<or> paused cl then Some (Inr st)
          else
            (let st1 = st\<lparr>canHold := False\<rparr>
             in case heldPiece cl of
                  Some temp \<Rightarrow>
                    (let st2 = st1\<lparr>heldPiece := Some piece, currentPiece := Some temp\<rparr>
                     in case spawnX temp of
                          Inl e \<Rightarrow> Some (Inl e)
                        | Inr startX \<Rightarrow>
                            commitMove cl st2 temp \<lparr>pos_x = startX, pos_y = 0\<rparr>)
                | None \<Rightarrow> spawnNewPiece cl (st1\<lparr>heldPiece := Some piece\<rparr>) r1 r2))"

text \<open>\<open>r0\<close> is the kind drawn for \<open>setNextPiece\<close>; \<open>spawnNewPiece\<close> still reads the next
  piece and the board of the closure.\<close>

definition startGame :: "State \<Rightarrow> State \<Rightarrow> TetrominoType \<Rightarrow> TetrominoType \<Rightarrow> TetrominoType \<Rightarrow> State outcome" where
  "startGame cl st r0 r1 r2 =
     spawnNewPiece cl
       (st\<lparr>board := createEmptyBoard, score := Num 0, level := 1, lines := 0, combo := 0,
            gameOver := False, paused := False, gameStarted := True, speed := INITIAL_SPEED,
            heldPiece := None, canHold := True,
            nextPiece := Some (createRandomTetromino r0)\<rparr>)
       r1 r2"

text \<open>The key handler, on \<open>e.code\<close>.  The soft-drop point is the \<open>setScore\<close> that follows
  the call of \<open>moveDown\<close> in the \<open>ArrowDown\<close> case.\<close>

definition handleKeyPress ::
    "State \<Rightarrow> State \<Rightarrow> string \<Rightarrow> TetrominoType \<Rightarrow> TetrominoType \<Rightarrow> TetrominoType \<Rightarrow> State outcome" where
  "handleKeyPress cl st code r0 r1 r2 =
     (if \<not> gameStarted cl \<and> code = ''Space'' then startGame cl st r0 r1 r2
      else if code = ''Escape'' then Some (Inr (st\<lparr>paused := \<not> paused st\<rparr>))
      else if code = ''ArrowLeft'' then moveLeft cl st
      else if code = ''ArrowRight'' then moveRight cl st
      else if code = ''ArrowDown'' then
        (case moveDown cl st r1 r2 of
           None \<Rightarrow> None
         | Some (Inl e) \<Rightarrow> Some (Inl e)
         | Some (Inr st1) \<Rightarrow> Some (Inr (st1\<lparr>score := addNum (score st1) (Num 1)\<rparr>)))
      else if code = ''ArrowUp'' \<or> code = ''KeyX'' then rotateAction cl st
      else if code = ''Space'' then hardDrop cl st
      else if code = ''KeyC'' \<or> code = ''ShiftLeft'' then holdPiece cl st r1 r2
      else Some (Inr st))"

text \<open>The callback of \<open>setInterval(moveDown, speed)\<close>.\<close>

definition gravityTick :: "State \<Rightarrow> State \<Rightarrow> TetrominoType \<Rightarrow> TetrominoType \<Rightarrow> State outcome" where
  "gravityTick cl st r1 r2 = moveDown cl st r1 r2"

section \<open>Predicates used in the statements\<close>

text \<open>A row is full when no cell of it is \<open>null\<close>.\<close>

definition isRowFull :: "Cell list \<Rightarrow> bool" where
  "isRowFull row = list_all (\<lambda>cell. cell \<noteq> Null) row"

text \<open>The shape has an occupied cell.\<close>

definition hasCell :: "Shape \<Rightarrow> bool" where
  "hasCell sh = list_ex (list_ex truthyNum) sh"

text \<open>The board cell at column \<open>newX\<close>, row \<open>newY\<close> cannot take a shape cell.\<close>

definition blocked :: "Board \<Rightarrow> int \<Rightarrow> int \<Rightarrow> bool" where
  "blocked b newX newY =
     (newX < 0 \<or> newX \<ge> BOARD_WIDTH \<or> newY \<ge> BOARD_HEIGHT \<or>
      (newY \<ge> 0 \<and> truthyCell (getCell (b ! nat newY) (nat newX))))"

text \<open>No occupied cell of the shape, anchored at \<open>pos\<close>, is blocked.\<close>

definition fits :: "Board \<Rightarrow> Shape \<Rightarrow> Position \<Rightarrow> bool" where
  "fits b sh pos =
     (\<forall>j < length sh. \<forall>i < length (sh ! j).
        truthyNum (sh ! j ! i) \<longrightarrow> \<not> blocked b (pos_x pos + int i) (pos_y pos + int j))"

text \<open>The shape cell that lies over board row \<open>r\<close>, column \<open>c\<close> when the shape is anchored
  at \<open>pos\<close> exists and is occupied.\<close>

definition covered :: "Shape \<Rightarrow> Position \<Rightarrow> nat \<Rightarrow> nat \<Rightarrow> bool" where
  "covered sh pos r c =
     (pos_y pos \<le> int r \<and> pos_x pos \<le> int c \<and>
      nat (int r - pos_y pos) < length sh \<and>
      nat (int c - pos_x pos) < length (sh ! nat (int r - pos_y pos)) \<and>
      truthyNum (sh ! nat (int r - pos_y pos) ! nat (int c - pos_x pos)))"

text \<open>Every shape row with an occupied cell that lies at a board row \<open>\<ge> 0\<close> lies at a row
  the board has.\<close>

definition rowsOnBoard :: "Board \<Rightarrow> Shape \<Rightarrow> Position \<Rightarrow> bool" where
  "rowsOnBoard b sh pos =
     list_all (\<lambda>j. \<not> list_ex truthyNum (sh ! j) \<or> pos_y pos + int j < 0 \<or>
                    pos_y pos + int j < int (length b)) [0..<length sh]"

text \<open>The position \<open>pos\<close> moved by the offset \<open>kick\<close>.\<close>

definition offsetBy :: "Position \<Rightarrow> Position \<Rightarrow> Position" where
  "offsetBy pos kick = \<lparr>pos_x = pos_x pos + pos_x kick, pos_y = pos_y pos + pos_y kick\<rparr>"

text \<open>All rows of the shape have the length of the first row.\<close>

definition rectangular :: "Shape \<Rightarrow> bool" where
  "rectangular sh = list_all (\<lambda>row. length row = length (hd sh)) sh"

text \<open>The pieces the component creates: the catalogue pieces drawn by
  \<open>createRandomTetromino\<close> and what \<open>rotatePiece\<close> returns for them.\<close>

inductive gamePiece :: "Tetromino \<Rightarrow> bool" where
  drawn: "gamePiece (createRandomTetromino t)"
| rotated: "gamePiece piece \<Longrightarrow> rotatePiece piece = Inr piece' \<Longrightarrow> gamePiece piece'"

section \<open>States used in the examples\<close>

text \<open>The initial values of the state cells (lines 32 to 46).\<close>

definition initialState :: State where
  "initialState =
     \<lparr>board = createEmptyBoard, currentPiece = None, position = \<lparr>pos_x = 0, pos_y = 0\<rparr>,
      nextPiece = None, heldPiece = None, canHold = True, score = Num 0, level = 1,
      lines = 0, gameOver = False, paused = False, gameStarted = False,
      speed = INITIAL_SPEED, combo = 0, ghostPosition = \<lparr>pos_x = 0, pos_y = 0\<rparr>\<rparr>"

text \<open>A game in progress on an empty board: an O piece at its spawn position, a T piece
  queued.\<close>

definition playingState :: State where
  "playingState =
     initialState\<lparr>gameStarted := True,
                  currentPiece := Some (createRandomTetromino TypeO),
                  position := \<lparr>pos_x = 4, pos_y = 0\<rparr>,
                  nextPiece := Some (createRandomTetromino TypeT),
                  ghostPosition := \<lparr>pos_x = 4, pos_y = 18\<rparr>\<rparr>"

text \<open>The same game, paused; and with the O piece resting on the floor.\<close>

definition pausedState :: State where
  "pausedState = playingState\<lparr>paused := True\<rparr>"

definition restingState :: State where
  "restingState = playingState\<lparr>position := \<lparr>pos_x = 4, pos_y = 18\<rparr>\<rparr>"

text \<open>A board row whose columns \<open>lo \<le> i < hi\<close> are occupied.\<close>

definition partRow :: "nat \<Rightarrow> nat \<Rightarrow> Cell list" where
  "partRow lo hi = map (\<lambda>i. if lo \<le> i \<and> i < hi then Color ''#f0f000'' else Null) [0..<10]"

text \<open>The I piece after one rotation.\<close>

definition verticalI :: Tetromino where
  "verticalI = \<lparr>type = TypeI, shape = [[Some 1], [Some 1], [Some 1], [Some 1]],
                color = ''#00f0f0''\<rparr>"

text \<open>The upright I piece three columns from the right wall, and in the last column.\<close>

definition wallState :: State where
  "wallState =
     playingState\<lparr>currentPiece := Some verticalI, position := \<lparr>pos_x = 7, pos_y = 0\<rparr>,
                  ghostPosition := \<lparr>pos_x = 7, pos_y = 16\<rparr>\<rparr>"

definition cornerState :: State where
  "cornerState =
     playingState\<lparr>currentPiece := Some verticalI, position := \<lparr>pos_x = 9, pos_y = 0\<rparr>,
                  ghostPosition := \<lparr>pos_x = 9, pos_y = 16\<rparr>\<rparr>"

text \<open>Columns 4 and 5 are stacked up to row 1; an I piece lies in row 0 and an O piece is
  queued.\<close>

definition stackedState :: State where
  "stackedState =
     playingState\<lparr>board := replicate 10 Null # replicate 19 (partRow 4 6),
                  currentPiece := Some (createRandomTetromino TypeI),
                  position := \<lparr>pos_x = 3, pos_y = 0\<rparr>,
                  nextPiece := Some (createRandomTetromino TypeO),
                  ghostPosition := \<lparr>pos_x = 3, pos_y = 0\<rparr>\<rparr>"

text \<open>Columns 4 and 5 are filled up to the top row, in the colour of the O piece, and an
  O piece lies over the filled cells of rows 0 and 1; another O piece is queued.  Locking
  the piece writes cells that already have its colour, so the board stays as it is.\<close>

definition toweredState :: State where
  "toweredState =
     playingState\<lparr>board := replicate 20 (partRow 4 6),
                  nextPiece := Some (createRandomTetromino TypeO),
                  ghostPosition := \<lparr>pos_x = 4, pos_y = 0\<rparr>\<rparr>"

text \<open>Columns 4 and 5 are filled up to row 2; the O piece lies in rows 0 and 1 on top of
  them and a T piece is queued.\<close>

definition topState :: State where
  "topState = playingState\<lparr>board := replicate 2 (replicate 10 Null) @ replicate 18 (partRow 4 6),
                            ghostPosition := \<lparr>pos_x = 4, pos_y = 0\<rparr>\<rparr>"

text \<open>Nine lines cleared so far; the I piece in the bottom row completes that row.\<close>

definition nineLinesState :: State where
  "nineLinesState =
     playingState\<lparr>board := replicate 19 (replicate 10 Null) @ [partRow 0 6],
                  currentPiece := Some (createRandomTetromino TypeI),
                  position := \<lparr>pos_x = 6, pos_y = 19\<rparr>,
                  ghostPosition := \<lparr>pos_x = 6, pos_y = 19\<rparr>,
                  lines := 9\<rparr>"

text \<open>The O piece completes the two bottom rows.\<close>

definition twoRowsState :: State where
  "twoRowsState =
     playingState\<lparr>board := replicate 18 (replicate 10 Null) @ [partRow 0 8, partRow 0 8],
                  position := \<lparr>pos_x = 8, pos_y = 18\<rparr>,
                  ghostPosition := \<lparr>pos_x = 8, pos_y = 18\<rparr>\<rparr>"

text \<open>A board with two full rows between rows that are not full.\<close>

definition mixedBoard :: Board where
  "mixedBoard =
     replicate 16 (replicate 10 Null) @ [partRow 0 3, partRow 0 10, partRow 2 5, partRow 0 10]"

section \<open>The collision validator on a board of full height\<close>

lemma collides_blocked:
  "nat BOARD_HEIGHT \<le> length b \<Longrightarrow> collides b X Y = Inr (blocked b X Y)"
  by (auto simp: collides_def blocked_def BOARD_HEIGHT_def)

lemma validCells_char:
  assumes "nat BOARD_HEIGHT \<le> length b"
  shows "validCells b pos y cs x =
     Inr (\<forall>i < length cs. truthyNum (cs ! i) \<longrightarrow> \<not> blocked b (pos_x pos + x + int i) (pos_y pos + y))"
proof (induction cs arbitrary: x)
  case Nil
  show ?case by simp
next
  case (Cons c cs)
  have eq: "(\<forall>i < length (c # cs). truthyNum ((c # cs) ! i) \<longrightarrow> \<not> blocked b (pos_x pos + x + int i) (pos_y pos + y))
      = ((truthyNum c \<longrightarrow> \<not> blocked b (pos_x pos + x) (pos_y pos + y)) \<and>
         (\<forall>i < length cs. truthyNum (cs ! i) \<longrightarrow> \<not> blocked b (pos_x pos + (x + 1) + int i) (pos_y pos + y)))"
    by (simp add: All_less_Suc2 add.assoc add.commute add.left_commute del: of_nat_Suc)
       (simp add: algebra_simps)
  show ?case
    unfolding eq
    by (simp add: Cons.IH [of "x + 1"] collides_blocked [OF assms] split: bool.splits)
qed

lemma validRows_char:
  assumes "nat BOARD_HEIGHT \<le> length b"
  shows "validRows b pos rs y =
     Inr (\<forall>j < length rs. \<forall>i < length (rs ! j).
            truthyNum (rs ! j ! i) \<longrightarrow> \<not> blocked b (pos_x pos + int i) (pos_y pos + y + int j))"
proof (induction rs arbitrary: y)
  case Nil
  show ?case by simp
next
  case (Cons r rs)
  have eq: "(\<forall>j < length (r # rs). \<forall>i < length ((r # rs) ! j).
            truthyNum ((r # rs) ! j ! i) \<longrightarrow> \<not> blocked b (pos_x pos + int i) (pos_y pos + y + int j))
      = ((\<forall>i < length r. truthyNum (r ! i) \<longrightarrow> \<not> blocked b (pos_x pos + 0 + int i) (pos_y pos + y)) \<and>
         (\<forall>j < length rs. \<forall>i < length (rs ! j).
            truthyNum (rs ! j ! i) \<longrightarrow> \<not> blocked b (pos_x pos + int i) (pos_y pos + (y + 1) + int j)))"
    by (simp add: All_less_Suc2 del: of_nat_Suc) (simp add: algebra_simps)
  show ?case
    unfolding eq
    by (simp add: Cons.IH [of "y + 1"] validCells_char [OF assms] split: bool.splits)
qed

lemma isValidPosition_fits:
  assumes "int (length (board cl)) = BOARD_HEIGHT"
  shows "isValidPosition cl piece pos None = Inr (fits (board cl) (shape piece) pos)"
proof -
  have "nat BOARD_HEIGHT \<le> length (board cl)" using assms by simp
  from validRows_char [OF this, of pos "shape piece" 0]
  show ?thesis by (simp add: isValidPosition_def fits_def)
qed

section \<open>The two drop loops end\<close>

lemma hasCell_iff:
  "hasCell sh = (\<exists>j < length sh. \<exists>i < length (sh ! j). truthyNum (sh ! j ! i))"
  by (simp add: hasCell_def list_ex_length)

lemma fits_below_height:
  assumes "hasCell sh" "fits b sh pos"
  shows "pos_y pos < BOARD_HEIGHT"
proof -
  from assms(1) obtain j i where ji: "j < length sh" "i < length (sh ! j)" "truthyNum (sh ! j ! i)"
    by (auto simp: hasCell_iff)
  with assms(2) have "\<not> blocked b (pos_x pos + int i) (pos_y pos + int j)"
    by (simp add: fits_def)
  then have "pos_y pos + int j < BOARD_HEIGHT" by (simp add: blocked_def)
  then show ?thesis by simp
qed

lemma loops_total:
  assumes wf: "int (length (board cl)) = BOARD_HEIGHT" "hasCell (shape piece)"
  shows "\<exists>g. ghostLoop cl piece (pos_x pos) (pos_y pos) = Some (Inr g)
            \<and> dropLoop cl piece pos d = Some (Inr (pos\<lparr>pos_y := g\<rparr>, d + (g - pos_y pos)))
            \<and> pos_y pos \<le> g
            \<and> (\<forall>y'. pos_y pos < y' \<and> y' \<le> g \<longrightarrow>
                   fits (board cl) (shape piece) \<lparr>pos_x = pos_x pos, pos_y = y'\<rparr>)
            \<and> \<not> fits (board cl) (shape piece) \<lparr>pos_x = pos_x pos, pos_y = g + 1\<rparr>"
proof (induction "nat (BOARD_HEIGHT - pos_y pos)" arbitrary: pos d rule: less_induct)
  case less
  let ?next = "\<lparr>pos_x = pos_x pos, pos_y = pos_y pos + 1\<rparr>"
  show ?case
  proof (cases "fits (board cl) (shape piece) ?next")
    case True
    from fits_below_height [OF wf(2) True] have lt: "pos_y pos + 1 < BOARD_HEIGHT" by simp
    let ?p = "pos\<lparr>pos_y := pos_y pos + 1\<rparr>"
    have "nat (BOARD_HEIGHT - pos_y ?p) < nat (BOARD_HEIGHT - pos_y pos)" using lt by simp
    from less [OF this, of "d + 1"] obtain g where
      g: "ghostLoop cl piece (pos_x pos) (pos_y pos + 1) = Some (Inr g)"
         "dropLoop cl piece ?p (d + 1) = Some (Inr (pos\<lparr>pos_y := g\<rparr>, d + 1 + (g - (pos_y pos + 1))))"
         "pos_y pos + 1 \<le> g"
         "\<forall>y'. pos_y pos + 1 < y' \<and> y' \<le> g \<longrightarrow>
                   fits (board cl) (shape piece) \<lparr>pos_x = pos_x pos, pos_y = y'\<rparr>"
         "\<not> fits (board cl) (shape piece) \<lparr>pos_x = pos_x pos, pos_y = g + 1\<rparr>"
      by auto
    have 1: "ghostLoop cl piece (pos_x pos) (pos_y pos) = Some (Inr g)"
      by (subst ghostLoop.simps) (simp add: isValidPosition_fits [OF wf(1)] True g(1))
    have 2: "dropLoop cl piece pos d = Some (Inr (pos\<lparr>pos_y := g\<rparr>, d + (g - pos_y pos)))"
      by (subst dropLoop.simps) (simp add: isValidPosition_fits [OF wf(1)] True g(2))
    have 3: "\<forall>y'. pos_y pos < y' \<and> y' \<le> g \<longrightarrow>
                   fits (board cl) (shape piece) \<lparr>pos_x = pos_x pos, pos_y = y'\<rparr>"
    proof (intro allI impI)
      fix y' assume "pos_y pos < y' \<and> y' \<le> g"
      then have "y' = pos_y pos + 1 \<or> (pos_y pos + 1 < y' \<and> y' \<le> g)" by auto
      then show "fits (board cl) (shape piece) \<lparr>pos_x = pos_x pos, pos_y = y'\<rparr>"
        using True g(4) by auto
    qed
    show ?thesis using 1 2 3 g(3) g(5) by auto
  next
    case False
    have 1: "ghostLoop cl piece (pos_x pos) (pos_y pos) = Some (Inr (pos_y pos))"
      by (subst ghostLoop.simps) (simp add: isValidPosition_fits [OF wf(1)] False)
    have 2: "dropLoop cl piece pos d = Some (Inr (pos, d))"
      by (subst dropLoop.simps) (simp add: isValidPosition_fits [OF wf(1)] False)
    show ?thesis using 1 2 False by auto
  qed
qed

section \<open>Line clearing\<close>

lemma filterRows_char:
  "filterRows b n = (filter (\<lambda>row. \<not> isRowFull row) b, n + length (filter isRowFull b))"
  by (induction b arbitrary: n) (simp_all add: isRowFull_def Let_def)

lemma padRows_char:
  "length b \<le> nat BOARD_HEIGHT \<Longrightarrow>
   padRows b = replicate (nat BOARD_HEIGHT - length b) (replicate (nat BOARD_WIDTH) Null) @ b"
proof (induction b rule: padRows.induct)
  case (1 newBoard)
  show ?case
  proof (cases "int (length newBoard) < BOARD_HEIGHT")
    case True
    then have le: "length (replicate (nat BOARD_WIDTH) Null # newBoard) \<le> nat BOARD_HEIGHT"
      by simp
    have "nat BOARD_HEIGHT - length newBoard = Suc (nat BOARD_HEIGHT - Suc (length newBoard))"
      using True by simp
    then show ?thesis
      using "1.IH" [OF True le] True
      by (subst padRows.simps) (simp add: replicate_app_Cons_same)
  next
    case False
    with "1.prems" have "length newBoard = nat BOARD_HEIGHT" by simp
    then show ?thesis using False by (subst padRows.simps) simp
  qed
qed

lemma clearFullRows_char:
  assumes "int (length b) = BOARD_HEIGHT"
  shows "clearFullRows b =
     (replicate (length (filter isRowFull b)) (replicate (nat BOARD_WIDTH) Null)
        @ filter (\<lambda>row. \<not> isRowFull row) b,
      length (filter isRowFull b))"
proof -
  have sum: "length (filter isRowFull b) + length (filter (\<lambda>row. \<not> isRowFull row) b) = length b"
    by (rule sum_length_filter_compl)
  then have "length (filter (\<lambda>row. \<not> isRowFull row) b) \<le> nat BOARD_HEIGHT"
    using assms by simp
  from padRows_char [OF this] sum assms show ?thesis
    by (simp add: clearFullRows_def filterRows_char)
qed

section \<open>Writing a piece into the board\<close>

lemma getCell_setIndex:
  "getCell (setIndex row i v) c = (if int c = i then v else getCell row c)"
  by (auto simp: getCell_def setIndex_def nth_append)

lemma writeCell_char:
  assumes "0 \<le> Y" "nat Y < length nb"
  shows "\<exists>nb'. writeCell nb Y X v = Inr nb' \<and> length nb' = length nb \<and>
           (\<forall>r < length nb. \<forall>c. getCell (nb' ! r) c =
                (if int r = Y \<and> int c = X then v else getCell (nb ! r) c))"
  using assms by (auto simp: writeCell_def getCell_setIndex nth_list_update)

lemma mergeCells_char:
  assumes "(\<exists>i < length cs. truthyNum (cs ! i)) \<and> 0 \<le> pos_y pos + y \<longrightarrow> nat (pos_y pos + y) < length nb"
  shows "\<exists>nb'. mergeCells nb col pos y cs x = Inr nb' \<and> length nb' = length nb \<and>
     (\<forall>r < length nb. \<forall>c. getCell (nb' ! r) c =
        (if int r = pos_y pos + y \<and> (\<exists>i < length cs. truthyNum (cs ! i) \<and> int c = pos_x pos + x + int i)
         then Color col else getCell (nb ! r) c))"
  using assms
proof (induction cs arbitrary: nb x)
  case Nil
  show ?case by simp
next
  case (Cons a cs)
  have ex: "\<And>c. (\<exists>i < length (a # cs). truthyNum ((a # cs) ! i) \<and> int c = pos_x pos + x + int i)
        = ((truthyNum a \<and> int c = pos_x pos + x) \<or>
           (\<exists>i < length cs. truthyNum (cs ! i) \<and> int c = pos_x pos + (x + 1) + int i))"
    by (simp add: Ex_less_Suc2 del: of_nat_Suc) (simp add: algebra_simps)
  show ?case
  proof (cases "truthyNum a \<and> pos_y pos + y \<ge> 0")
    case True
    with Cons.prems have inb: "nat (pos_y pos + y) < length nb" by auto
    from writeCell_char [of "pos_y pos + y" nb "pos_x pos + x" "Color col"] True inb
    obtain nb1 where nb1: "writeCell nb (pos_y pos + y) (pos_x pos + x) (Color col) = Inr nb1"
       "length nb1 = length nb"
       "\<forall>r < length nb. \<forall>c. getCell (nb1 ! r) c =
                (if int r = pos_y pos + y \<and> int c = pos_x pos + x then Color col else getCell (nb ! r) c)"
      by auto
    have pre: "(\<exists>i < length cs. truthyNum (cs ! i)) \<and> 0 \<le> pos_y pos + y \<longrightarrow> nat (pos_y pos + y) < length nb1"
      using inb nb1(2) by simp
    from Cons.IH [OF pre, of "x + 1"] obtain nb' where nb':
       "mergeCells nb1 col pos y cs (x + 1) = Inr nb'" "length nb' = length nb1"
       "\<forall>r < length nb1. \<forall>c. getCell (nb' ! r) c =
        (if int r = pos_y pos + y \<and> (\<exists>i < length cs. truthyNum (cs ! i) \<and> int c = pos_x pos + (x + 1) + int i)
         then Color col else getCell (nb1 ! r) c)"
      by auto
    have "mergeCells nb col pos y (a # cs) x = Inr nb'"
      using True nb1(1) nb'(1) by simp
    moreover have "length nb' = length nb" using nb1(2) nb'(2) by simp
    moreover have "\<forall>r < length nb. \<forall>c. getCell (nb' ! r) c =
        (if int r = pos_y pos + y \<and> (\<exists>i < length (a # cs). truthyNum ((a # cs) ! i) \<and> int c = pos_x pos + x + int i)
         then Color col else getCell (nb ! r) c)"
      unfolding ex using nb'(3) nb1(2) nb1(3) True by auto
    ultimately show ?thesis by blast
  next
    case False
    have pre: "(\<exists>i < length cs. truthyNum (cs ! i)) \<and> 0 \<le> pos_y pos + y \<longrightarrow> nat (pos_y pos + y) < length nb"
      using Cons.prems by auto
    from Cons.IH [OF pre, of "x + 1"] obtain nb' where nb':
       "mergeCells nb col pos y cs (x + 1) = Inr nb'" "length nb' = length nb"
       "\<forall>r < length nb. \<forall>c. getCell (nb' ! r) c =
        (if int r = pos_y pos + y \<and> (\<exists>i < length cs. truthyNum (cs ! i) \<and> int c = pos_x pos + (x + 1) + int i)
         then Color col else getCell (nb ! r) c)"
      by auto
    have "mergeCells nb col pos y (a # cs) x = Inr nb'"
      using False nb'(1) by auto
    moreover have "\<forall>r < length nb. \<forall>c. getCell (nb' ! r) c =
        (if int r = pos_y pos + y \<and> (\<exists>i < length (a # cs). truthyNum ((a # cs) ! i) \<and> int c = pos_x pos + x + int i)
         then Color col else getCell (nb ! r) c)"
      unfolding ex using nb'(3) False by auto
    ultimately show ?thesis using nb'(2) by blast
  qed
qed

lemma mergeRows_char:
  assumes "\<forall>j < length rs. (\<exists>i < length (rs ! j). truthyNum (rs ! j ! i)) \<and> 0 \<le> pos_y pos + y + int j
              \<longrightarrow> nat (pos_y pos + y + int j) < length nb"
  shows "\<exists>nb'. mergeRows nb col pos rs y = Inr nb' \<and> length nb' = length nb \<and>
     (\<forall>r < length nb. \<forall>c. getCell (nb' ! r) c =
        (if (\<exists>j < length rs. int r = pos_y pos + y + int j \<and>
               (\<exists>i < length (rs ! j). truthyNum (rs ! j ! i) \<and> int c = pos_x pos + int i))
         then Color col else getCell (nb ! r) c))"
  using assms
proof (induction rs arbitrary: nb y)
  case Nil
  show ?case by simp
next
  case (Cons a rs)
  have ex: "\<And>r c. (\<exists>j < length (a # rs). int r = pos_y pos + y + int j \<and>
               (\<exists>i < length ((a # rs) ! j). truthyNum ((a # rs) ! j ! i) \<and> int c = pos_x pos + int i))
        = ((int r = pos_y pos + y \<and> (\<exists>i < length a. truthyNum (a ! i) \<and> int c = pos_x pos + 0 + int i)) \<or>
           (\<exists>j < length rs. int r = pos_y pos + (y + 1) + int j \<and>
               (\<exists>i < length (rs ! j). truthyNum (rs ! j ! i) \<and> int c = pos_x pos + int i)))"
    by (simp add: Ex_less_Suc2 del: of_nat_Suc) (simp add: algebra_simps)
  have pre0: "(\<exists>i < length a. truthyNum (a ! i)) \<and> 0 \<le> pos_y pos + y \<longrightarrow> nat (pos_y pos + y) < length nb"
    using Cons.prems by fastforce
  from mergeCells_char [OF pre0, of col 0] obtain nb1 where nb1:
     "mergeCells nb col pos y a 0 = Inr nb1" "length nb1 = length nb"
     "\<forall>r < length nb. \<forall>c. getCell (nb1 ! r) c =
        (if int r = pos_y pos + y \<and> (\<exists>i < length a. truthyNum (a ! i) \<and> int c = pos_x pos + 0 + int i)
         then Color col else getCell (nb ! r) c)"
    by blast
  have pre: "\<forall>j < length rs. (\<exists>i < length (rs ! j). truthyNum (rs ! j ! i)) \<and> 0 \<le> pos_y pos + (y + 1) + int j
              \<longrightarrow> nat (pos_y pos + (y + 1) + int j) < length nb1"
  proof (intro allI impI)
    fix j assume j: "j < length rs"
      and h: "(\<exists>i < length (rs ! j). truthyNum (rs ! j ! i)) \<and> 0 \<le> pos_y pos + (y + 1) + int j"
    from Cons.prems j have
      "(\<exists>i < length ((a # rs) ! Suc j). truthyNum ((a # rs) ! Suc j ! i)) \<and> 0 \<le> pos_y pos + y + int (Suc j)
              \<longrightarrow> nat (pos_y pos + y + int (Suc j)) < length nb"
      by (metis Suc_less_eq length_Cons)
    with h show "nat (pos_y pos + (y + 1) + int j) < length nb1"
      by (simp add: nb1(2) algebra_simps)
  qed
  from Cons.IH [OF pre] obtain nb' where nb':
     "mergeRows nb1 col pos rs (y + 1) = Inr nb'" "length nb' = length nb1"
     "\<forall>r < length nb1. \<forall>c. getCell (nb' ! r) c =
        (if (\<exists>j < length rs. int r = pos_y pos + (y + 1) + int j \<and>
               (\<exists>i < length (rs ! j). truthyNum (rs ! j ! i) \<and> int c = pos_x pos + int i))
         then Color col else getCell (nb1 ! r) c)"
    by blast
  have "mergeRows nb col pos (a # rs) y = Inr nb'"
    using nb1(1) nb'(1) by simp
  moreover have "length nb' = length nb" using nb1(2) nb'(2) by simp
  moreover have "\<forall>r < length nb. \<forall>c. getCell (nb' ! r) c =
        (if (\<exists>j < length (a # rs). int r = pos_y pos + y + int j \<and>
               (\<exists>i < length ((a # rs) ! j). truthyNum ((a # rs) ! j ! i) \<and> int c = pos_x pos + int i))
         then Color col else getCell (nb ! r) c)"
    unfolding ex using nb'(3) nb1(2) nb1(3) by auto
  ultimately show ?case by blast
qed

lemma covered_iff:
  "covered sh pos r c =
     (\<exists>j < length sh. int r = pos_y pos + 0 + int j \<and>
        (\<exists>i < length (sh ! j). truthyNum (sh ! j ! i) \<and> int c = pos_x pos + int i))"
proof
  assume "covered sh pos r c"
  then show "\<exists>j < length sh. int r = pos_y pos + 0 + int j \<and>
        (\<exists>i < length (sh ! j). truthyNum (sh ! j ! i) \<and> int c = pos_x pos + int i)"
    unfolding covered_def
    by (intro exI [of _ "nat (int r - pos_y pos)"] conjI exI [of _ "nat (int c - pos_x pos)"]) auto
next
  assume "\<exists>j < length sh. int r = pos_y pos + 0 + int j \<and>
        (\<exists>i < length (sh ! j). truthyNum (sh ! j ! i) \<and> int c = pos_x pos + int i)"
  then obtain j i where "j < length sh" "int r = pos_y pos + int j" "i < length (sh ! j)"
     "truthyNum (sh ! j ! i)" "int c = pos_x pos + int i" by auto
  then show "covered sh pos r c" by (simp add: covered_def)
qed

lemma rowsOnBoard_iff:
  "rowsOnBoard b sh pos =
     (\<forall>j < length sh. (\<exists>i < length (sh ! j). truthyNum (sh ! j ! i)) \<and> 0 \<le> pos_y pos + 0 + int j
              \<longrightarrow> nat (pos_y pos + 0 + int j) < length b)"
  by (auto simp: rowsOnBoard_def list_all_iff list_ex_length)

lemma lockPiece_char:
  assumes "rowsOnBoard b (shape piece) pos"
  shows "\<exists>nb. lockPiece b piece pos = Inr nb \<and> length nb = length b \<and>
     (\<forall>r < length b. \<forall>c. getCell (nb ! r) c =
        (if covered (shape piece) pos r c then Color (color piece) else getCell (b ! r) c))"
  unfolding lockPiece_def covered_iff
  by (rule mergeRows_char) (use assms in \<open>simp only: rowsOnBoard_iff\<close>)

section \<open>Wall kicks\<close>

lemma tryKicks_none:
  assumes "\<forall>k \<in> set ks. isValidPosition cl rotated (offsetBy (position cl) k) None = Inr False"
  shows "tryKicks cl st rotated ks = Some (Inr st)"
  using assms by (induction ks) (simp_all add: offsetBy_def Let_def)

lemma tryKicks_first:
  assumes "i < length ks"
    and "isValidPosition cl rotated (offsetBy (position cl) (ks ! i)) None = Inr True"
    and "\<forall>j < i. isValidPosition cl rotated (offsetBy (position cl) (ks ! j)) None = Inr False"
  shows "tryKicks cl st rotated ks =
     (case calculateGhostPosition cl rotated (offsetBy (position cl) (ks ! i)) of
        None \<Rightarrow> None
      | Some (Inl e) \<Rightarrow> Some (Inl e)
      | Some (Inr ghost) \<Rightarrow>
          Some (Inr (st\<lparr>currentPiece := Some rotated,
                        position := offsetBy (position cl) (ks ! i),
                        ghostPosition := ghost\<rparr>)))"
  using assms
proof (induction ks arbitrary: i)
  case Nil
  then show ?case by simp
next
  case (Cons k ks)
  show ?case
  proof (cases i)
    case 0
    with Cons.prems(2) show ?thesis
      by (simp add: offsetBy_def Let_def split: option.splits sum.splits)
  next
    case (Suc n)
    with Cons.prems have n: "n < length ks"
      and v: "isValidPosition cl rotated (offsetBy (position cl) (ks ! n)) None = Inr True"
      by simp_all
    have r: "\<forall>j < n. isValidPosition cl rotated (offsetBy (position cl) (ks ! j)) None = Inr False"
    proof (intro allI impI)
      fix j assume "j < n"
      then have "Suc j < i" using Suc by simp
      with Cons.prems(3) show "isValidPosition cl rotated (offsetBy (position cl) (ks ! j)) None = Inr False"
        by fastforce
    qed
    have k0: "isValidPosition cl rotated (offsetBy (position cl) k) None = Inr False"
      using Cons.prems(3) Suc by fastforce
    from Cons.IH [OF n v r] k0 Suc show ?thesis
      by (simp add: offsetBy_def Let_def split: option.splits sum.splits)
  qed
qed

section \<open>Spawning and locking, as the callers see them\<close>

lemma hasCell_nonempty: "hasCell sh \<Longrightarrow> sh = hd sh # tl sh"
  by (cases sh) (simp_all add: hasCell_def)

lemma spawnX_hasCell:
  "hasCell (shape piece) \<Longrightarrow>
   spawnX piece = Inr (BOARD_WIDTH div 2 - int (length (hd (shape piece))) div 2)"
  using hasCell_nonempty [of "shape piece"] by (cases "shape piece") (simp_all add: spawnX_def)

lemma spawnNewPiece_char:
  assumes "int (length (board cl)) = BOARD_HEIGHT"
    and "piece = (case nextPiece cl of Some p \<Rightarrow> p | None \<Rightarrow> createRandomTetromino r1)"
    and "hasCell (shape piece)"
    and "start = \<lparr>pos_x = BOARD_WIDTH div 2 - int (length (hd (shape piece))) div 2, pos_y = 0\<rparr>"
  shows "(\<not> fits (board cl) (shape piece) start \<longrightarrow>
            spawnNewPiece cl st r1 r2 = Some (Inr (st\<lparr>gameOver := True\<rparr>)))
       \<and> (fits (board cl) (shape piece) start \<longrightarrow>
            (\<exists>ghost. calculateGhostPosition cl piece start = Some (Inr ghost)
               \<and> spawnNewPiece cl st r1 r2 =
                   Some (Inr (st\<lparr>currentPiece := Some piece, position := start,
                                 nextPiece := Some (createRandomTetromino r2),
                                 ghostPosition := ghost\<rparr>))))"
proof -
  from loops_total [OF assms(1) assms(3), of start 0]
  obtain g where "ghostLoop cl piece (pos_x start) (pos_y start) = Some (Inr g)" by blast
  then have g: "calculateGhostPosition cl piece start = Some (Inr \<lparr>pos_x = pos_x start, pos_y = g\<rparr>)"
    by (simp add: calculateGhostPosition_def)
  have x: "spawnX piece = Inr (pos_x start)"
    using spawnX_hasCell [OF assms(3)] assms(4) by simp
  have s: "\<lparr>pos_x = pos_x start, pos_y = 0\<rparr> = start" using assms(4) by simp
  have v: "isValidPosition cl piece start None = Inr (fits (board cl) (shape piece) start)"
    by (rule isValidPosition_fits [OF assms(1)])
  show ?thesis
    using g by (simp add: spawnNewPiece_def Let_def assms(2) [symmetric] x s v)
qed


lemma checkLines_frame:
  "currentPiece (checkLines cl b st) = currentPiece st
   \<and> position (checkLines cl b st) = position st
   \<and> gameOver (checkLines cl b st) = gameOver st
   \<and> canHold (checkLines cl b st) = canHold st
   \<and> heldPiece (checkLines cl b st) = heldPiece st
   \<and> nextPiece (checkLines cl b st) = nextPiece st"
  by (simp add: checkLines_def Let_def split: prod.splits)


section \<open>Which actions touch the hold flag\<close>








section \<open>The pieces and boards of a game meet the hypotheses\<close>

lemma catalogue_shape:
  "hasCell (shape (createRandomTetromino t)) \<and> rectangular (shape (createRandomTetromino t))"
  by (cases t) (simp_all add: createRandomTetromino_def TETROMINOES_def hasCell_def rectangular_def)

lemma rotatePiece_keeps_cells:
  assumes "hasCell (shape piece)" and "rectangular (shape piece)"
    and "rotatePiece piece = Inr piece'"
  shows "hasCell (shape piece') \<and> rectangular (shape piece')"
proof -
  from assms(1) obtain j i where ji: "j < length (shape piece)" "i < length (shape piece ! j)"
    "truthyNum (shape piece ! j ! i)" by (auto simp: hasCell_iff)
  then obtain row0 rest where s: "shape piece = row0 # rest" by (cases "shape piece") auto
  from assms(2) ji(1) have w: "length (shape piece ! j) = length row0"
    by (simp add: rectangular_def list_all_length s del: nth_Cons_0)
  let ?R = "length (shape piece)"
  have sh: "shape piece' = map (\<lambda>i. rev (map (\<lambda>row. getNum row i) (shape piece))) [0..<length row0]"
    using assms(3) by (auto simp: rotatePiece_def s)
  have i: "i < length row0" using ji(2) w by simp
  have cell: "shape piece' ! i ! (?R - 1 - j) = shape piece ! j ! i"
    using i ji(1,2) by (simp add: sh rev_nth getNum_def)
  have "i < length (shape piece')" using i by (simp add: sh)
  moreover have "?R - 1 - j < length (shape piece' ! i)" using i ji(1) by (simp add: sh)
  ultimately have "\<exists>a < length (shape piece'). \<exists>b < length (shape piece' ! a).
                     truthyNum (shape piece' ! a ! b)"
    using cell ji(3) by metis
  then have "hasCell (shape piece')" by (simp add: hasCell_iff)
  moreover have "rectangular (shape piece')"
  proof -
    have ne: "row0 \<noteq> []" using i by (cases row0) simp_all
    then have pos: "0 < length row0" by simp
    have "hd (shape piece') = rev (map (\<lambda>row. getNum row 0) (shape piece))"
      using pos ne by (simp add: sh hd_map)
    then show ?thesis using pos by (simp add: rectangular_def list_all_length) (auto simp: sh)
  qed
  ultimately show ?thesis by simp
qed

lemma gamePiece_shape:
  "gamePiece piece \<Longrightarrow> hasCell (shape piece) \<and> rectangular (shape piece)"
proof (induction rule: gamePiece.induct)
  case (drawn t)
  show ?case by (rule catalogue_shape)
next
  case (rotated piece piece')
  then show ?case using rotatePiece_keeps_cells by blast
qed

lemma gamePiece_rotates:
  "gamePiece piece \<Longrightarrow> \<exists>piece'. rotatePiece piece = Inr piece' \<and> gamePiece piece'"
proof -
  assume g: "gamePiece piece"
  from gamePiece_shape [OF g] hasCell_nonempty [of "shape piece"]
  obtain piece' where "rotatePiece piece = Inr piece'"
    by (cases "shape piece") (auto simp: rotatePiece_def)
  with g show ?thesis by (blast intro: gamePiece.rotated)
qed

lemma createEmptyBoard_height: "int (length createEmptyBoard) = BOARD_HEIGHT"
  by (simp add: createEmptyBoard_def BOARD_HEIGHT_def)

lemma mergePiece_board_height:
  assumes "int (length (board cl)) = BOARD_HEIGHT" and "currentPiece cl = Some piece"
    and "mergePiece cl st = Inr st'"
  shows "int (length (board st')) = BOARD_HEIGHT"
proof -
  from assms(2,3) obtain nb where nb: "lockPiece (board cl) piece (position cl) = Inr nb"
    and st': "st' = (checkLines cl nb (st\<lparr>board := nb\<rparr>))\<lparr>canHold := True\<rparr>"
    by (auto simp: mergePiece_def split: sum.splits)
  have len: "length nb = length (board cl)"
  proof -
    have "mergeRows b col pos rs y = Inr b' \<Longrightarrow> length b' = length b" for b b' col pos rs y
    proof (induction rs arbitrary: b y)
      case Nil
      then show ?case by simp
    next
      case (Cons r rs)
      have cells: "mergeCells c col pos y cs x = Inr c' \<Longrightarrow> length c' = length c" for c c' cs x
        by (induction cs arbitrary: c x)
           (auto simp: writeCell_def split: if_splits sum.splits)
      from Cons.prems obtain b1 where "mergeCells b col pos y r 0 = Inr b1"
        "mergeRows b1 col pos rs (y + 1) = Inr b'" by (auto split: sum.splits)
      with cells Cons.IH show ?case by fastforce
    qed
    with nb show ?thesis by (simp add: lockPiece_def)
  qed
  then have h: "int (length nb) = BOARD_HEIGHT" using assms(1) by simp
  have sum: "length (filter isRowFull nb) + length (filter (\<lambda>row. \<not> isRowFull row) nb) = length nb"
    by (rule sum_length_filter_compl)
  have "int (length (board (checkLines cl nb (st\<lparr>board := nb\<rparr>)))) = BOARD_HEIGHT"
    using h sum by (simp add: checkLines_def clearFullRows_char [OF h] Let_def)
  then show ?thesis by (simp add: st')
qed

section \<open>The board a spawn reads\<close>

lemma isValidPosition_board_cong:
  "board a = board b \<Longrightarrow> isValidPosition a piece pos None = isValidPosition b piece pos None"
  by (simp add: isValidPosition_def)

lemma calculateGhostPosition_board_cong:
  assumes "board a = board b" and "int (length (board a)) = BOARD_HEIGHT"
    and "hasCell (shape piece)"
  shows "calculateGhostPosition a piece pos = calculateGhostPosition b piece pos"
proof -
  have hb: "int (length (board b)) = BOARD_HEIGHT" using assms(1,2) by simp
  from loops_total [OF assms(2,3), of pos 0] obtain g where
    g: "ghostLoop a piece (pos_x pos) (pos_y pos) = Some (Inr g)" "pos_y pos \<le> g"
       "\<forall>y'. pos_y pos < y' \<and> y' \<le> g \<longrightarrow>
              fits (board a) (shape piece) \<lparr>pos_x = pos_x pos, pos_y = y'\<rparr>"
       "\<not> fits (board a) (shape piece) \<lparr>pos_x = pos_x pos, pos_y = g + 1\<rparr>"
    by blast
  from loops_total [OF hb assms(3), of pos 0] obtain h where
    h: "ghostLoop b piece (pos_x pos) (pos_y pos) = Some (Inr h)" "pos_y pos \<le> h"
       "\<forall>y'. pos_y pos < y' \<and> y' \<le> h \<longrightarrow>
              fits (board b) (shape piece) \<lparr>pos_x = pos_x pos, pos_y = y'\<rparr>"
       "\<not> fits (board b) (shape piece) \<lparr>pos_x = pos_x pos, pos_y = h + 1\<rparr>"
    by blast
  have "g = h"
  proof (rule ccontr)
    assume "g \<noteq> h"
    then consider "g < h" | "h < g" by linarith
    then show False
    proof cases
      case 1
      with g(2) have "pos_y pos < g + 1 \<and> g + 1 \<le> h" by simp
      with h(3) g(4) assms(1) show False by simp
    next
      case 2
      with h(2) have "pos_y pos < h + 1 \<and> h + 1 \<le> g" by simp
      with g(3) h(4) assms(1) show False by simp
    qed
  qed
  with g(1) h(1) show ?thesis by (simp add: calculateGhostPosition_def)
qed

lemma mergePiece_frame:
  "mergePiece cl st = Inr st' \<Longrightarrow>
   currentPiece st' = currentPiece st \<and> position st' = position st \<and> gameOver st' = gameOver st"
  by (auto simp: mergePiece_def checkLines_frame split: option.splits sum.splits)

text \<open>After a lock, \<open>spawnNewPiece\<close> still reads the board of its closure, the board before
  the lock: on \<open>topState\<close> the soft drop locks the O piece into rows 0 and 1, and the queued
  T piece is spawned over it, although the validator rejects it on the board that
  results.\<close>

lemma spawn_after_lock_reads_old_board:
  "(case moveDown topState topState TypeO TypeL of
      Some (Inr st') \<Rightarrow>
        \<not> gameOver st' \<and> currentPiece st' = Some (createRandomTetromino TypeT)
        \<and> position st' = \<lparr>pos_x = 4, pos_y = 0\<rparr>
        \<and> isValidPosition st' (createRandomTetromino TypeT) \<lparr>pos_x = 4, pos_y = 0\<rparr> None
            = Inr False
    | _ \<Rightarrow> False)"
  by code_simp

section \<open>C1: the level after a line clear\<close>

text \<open>
  Claim C1: after a lock that clears a line, \<open>level = floor(lines / 10) + 1\<close> for the updated
  line count, so the lock that takes the count from 9 to 10 gives level 2 and speed 900.
  \<open>checkLines\<close> computes the new level from the line count of its closure, the count before
  the lock.  On \<open>nineLinesState\<close> the soft drop locks the I piece, the bottom row is
  cleared, the count becomes 10, and the level stays 1 at speed 1000.
\<close>

theorem level_after_tenth_line:
  "lines nineLinesState = 9 \<and> level nineLinesState = 1 \<and> speed nineLinesState = 1000
   \<and> (case moveDown nineLinesState nineLinesState TypeO TypeL of
        Some (Inr st') \<Rightarrow> lines st' = 10 \<and> level st' = 1 \<and> speed st' = 1000
      | _ \<Rightarrow> False)"
  by code_simp

section \<open>C2: a rejected spawn ends the game and leaves the active piece as it was\<close>

text \<open>
  Claim C2 says that after a rejected spawn no active piece is set.  The code never clears
  \<open>currentPiece\<close>.  On \<open>stackedState\<close> the queued O piece does not fit at its spawn
  position, neither before nor after the I piece is locked: the soft drop that locks the
  I piece ends the game and leaves the I piece active, and so does a hold, which spawns on
  the unchanged board.
\<close>

theorem spawn_rejected_keeps_piece_counterexample:
  "isValidPosition stackedState (createRandomTetromino TypeO) \<lparr>pos_x = 4, pos_y = 0\<rparr> None
     = Inr False
   \<and> (case moveDown stackedState stackedState TypeO TypeO of
        Some (Inr st') \<Rightarrow>
          gameOver st' \<and> currentPiece st' = Some (createRandomTetromino TypeI)
          \<and> isValidPosition st' (createRandomTetromino TypeO) \<lparr>pos_x = 4, pos_y = 0\<rparr> None
              = Inr False
      | _ \<Rightarrow> False)
   \<and> (case holdPiece stackedState stackedState TypeO TypeO of
        Some (Inr st') \<Rightarrow>
          gameOver st' \<and> currentPiece st' = Some (createRandomTetromino TypeI)
          \<and> board st' = board stackedState
      | _ \<Rightarrow> False)"
  by code_simp

text \<open>
  Claim C2, amended, for the spawns whose closure reads the board that is spawned on: any
  spawn on a pending state with the board of the closure, the hold with an empty hold
  slot, the start over an empty board, and the spawn after a lock that left the board as
  it was.  Let \<open>piece\<close> be the queued piece (or the piece drawn when none is queued), with
  an occupied cell, on a board of 20 rows, and let \<open>start\<close> be its spawn position,
  \<open>x = floor(10 / 2) - floor(shape width / 2)\<close>, \<open>y = 0\<close>.  The validator accepts or rejects
  \<open>start\<close> on the board spawned on.  When it rejects, the game-over flag is set and the
  spawn sets nothing else, so the active piece and its position stay as they were.  When
  it accepts, the piece becomes the active piece at \<open>start\<close>.  Nothing is said here about
  a spawn after a lock that changed the board, or a start over a board that is not empty.
\<close>

theorem spawn_rejected_or_active:
  assumes "int (length (board cl)) = BOARD_HEIGHT"
    and "piece = (case nextPiece cl of Some p \<Rightarrow> p | None \<Rightarrow> createRandomTetromino r1)"
    and "hasCell (shape piece)"
    and "start = \<lparr>pos_x = BOARD_WIDTH div 2 - int (length (hd (shape piece))) div 2, pos_y = 0\<rparr>"
  shows "(board st = board cl \<longrightarrow>
            (isValidPosition st piece start None = Inr False
               \<or> isValidPosition st piece start None = Inr True)
            \<and> (isValidPosition st piece start None = Inr False \<longrightarrow>
                  spawnNewPiece cl st r1 r2 = Some (Inr (st\<lparr>gameOver := True\<rparr>)))
            \<and> (isValidPosition st piece start None = Inr True \<longrightarrow>
                  (\<exists>ghost. calculateGhostPosition st piece start = Some (Inr ghost)
                     \<and> spawnNewPiece cl st r1 r2 =
                         Some (Inr (st\<lparr>currentPiece := Some piece, position := start,
                                       nextPiece := Some (createRandomTetromino r2),
                                       ghostPosition := ghost\<rparr>)))))
       \<and> (\<forall>cur. board st = board cl \<and> currentPiece cl = Some cur \<and> canHold cl
                 \<and> \<not> gameOver cl \<and> \<not> paused cl \<and> heldPiece cl = None \<longrightarrow>
             (isValidPosition st piece start None = Inr False \<longrightarrow>
                (\<exists>st'. holdPiece cl st r1 r2 = Some (Inr st') \<and> gameOver st'
                   \<and> currentPiece st' = currentPiece st \<and> position st' = position st))
             \<and> (isValidPosition st piece start None = Inr True \<longrightarrow>
                (\<exists>st'. holdPiece cl st r1 r2 = Some (Inr st') \<and> gameOver st' = gameOver st
                   \<and> currentPiece st' = Some piece \<and> position st' = start)))
       \<and> (board cl = createEmptyBoard \<longrightarrow>
             (isValidPosition (st\<lparr>board := createEmptyBoard\<rparr>) piece start None = Inr False \<longrightarrow>
                (\<exists>st'. startGame cl st r0 r1 r2 = Some (Inr st') \<and> gameOver st'
                   \<and> currentPiece st' = currentPiece st \<and> position st' = position st))
             \<and> (isValidPosition (st\<lparr>board := createEmptyBoard\<rparr>) piece start None = Inr True \<longrightarrow>
                (\<exists>st'. startGame cl st r0 r1 r2 = Some (Inr st') \<and> \<not> gameOver st'
                   \<and> currentPiece st' = Some piece \<and> position st' = start)))
       \<and> (\<forall>st1. mergePiece cl st = Inr st1 \<and> board st1 = board cl \<longrightarrow>
             (isValidPosition st1 piece start None = Inr False \<longrightarrow>
                (\<exists>st'. lockAndSpawn cl st r1 r2 = Some (Inr st') \<and> gameOver st'
                   \<and> currentPiece st' = currentPiece st \<and> position st' = position st))
             \<and> (isValidPosition st1 piece start None = Inr True \<longrightarrow>
                (\<exists>st'. lockAndSpawn cl st r1 r2 = Some (Inr st') \<and> gameOver st' = gameOver st
                   \<and> currentPiece st' = Some piece \<and> position st' = start)))"
proof -
  let ?fits = "fits (board cl) (shape piece) start"
  have v: "isValidPosition p piece start None = Inr ?fits" if "board p = board cl" for p
    using isValidPosition_fits [of p piece start] that assms(1) by simp
  have gh: "calculateGhostPosition p piece start = calculateGhostPosition cl piece start"
    if "board p = board cl" for p
    using calculateGhostPosition_board_cong [of p cl piece start] that assms(1,3) by simp
  have rej: "spawnNewPiece cl p r1 r2 = Some (Inr (p\<lparr>gameOver := True\<rparr>))"
    if "\<not> ?fits" for p
    using that spawnNewPiece_char [OF assms, of p r2] by simp
  have acc: "\<exists>ghost. calculateGhostPosition cl piece start = Some (Inr ghost)
               \<and> spawnNewPiece cl p r1 r2 =
                   Some (Inr (p\<lparr>currentPiece := Some piece, position := start,
                                 nextPiece := Some (createRandomTetromino r2),
                                 ghostPosition := ghost\<rparr>))"
    if "?fits" for p
    using that spawnNewPiece_char [OF assms, of p r2] by simp
  have a: "(isValidPosition st piece start None = Inr False
               \<or> isValidPosition st piece start None = Inr True)
            \<and> (isValidPosition st piece start None = Inr False \<longrightarrow>
                  spawnNewPiece cl st r1 r2 = Some (Inr (st\<lparr>gameOver := True\<rparr>)))
            \<and> (isValidPosition st piece start None = Inr True \<longrightarrow>
                  (\<exists>ghost. calculateGhostPosition st piece start = Some (Inr ghost)
                     \<and> spawnNewPiece cl st r1 r2 =
                         Some (Inr (st\<lparr>currentPiece := Some piece, position := start,
                                       nextPiece := Some (createRandomTetromino r2),
                                       ghostPosition := ghost\<rparr>))))"
    if b: "board st = board cl"
    using rej [of st] acc [of st] by (auto simp: v [OF b] gh [OF b])
  have h: "(isValidPosition st piece start None = Inr False \<longrightarrow>
                (\<exists>st'. holdPiece cl st r1 r2 = Some (Inr st') \<and> gameOver st'
                   \<and> currentPiece st' = currentPiece st \<and> position st' = position st))
             \<and> (isValidPosition st piece start None = Inr True \<longrightarrow>
                (\<exists>st'. holdPiece cl st r1 r2 = Some (Inr st') \<and> gameOver st' = gameOver st
                   \<and> currentPiece st' = Some piece \<and> position st' = start))"
    if b: "board st = board cl" and g: "currentPiece cl = Some cur" "canHold cl"
      "\<not> gameOver cl" "\<not> paused cl" "heldPiece cl = None" for cur
  proof (cases ?fits)
    case True
    from acc [OF True, of "st\<lparr>canHold := False, heldPiece := Some cur\<rparr>"] g True
    show ?thesis by (auto simp: holdPiece_def Let_def v [OF b])
  next
    case False
    from rej [OF False, of "st\<lparr>canHold := False, heldPiece := Some cur\<rparr>"] g False
    show ?thesis by (auto simp: holdPiece_def Let_def v [OF b])
  qed
  have s: "(isValidPosition (st\<lparr>board := createEmptyBoard\<rparr>) piece start None = Inr False \<longrightarrow>
                (\<exists>st'. startGame cl st r0 r1 r2 = Some (Inr st') \<and> gameOver st'
                   \<and> currentPiece st' = currentPiece st \<and> position st' = position st))
             \<and> (isValidPosition (st\<lparr>board := createEmptyBoard\<rparr>) piece start None = Inr True \<longrightarrow>
                (\<exists>st'. startGame cl st r0 r1 r2 = Some (Inr st') \<and> \<not> gameOver st'
                   \<and> currentPiece st' = Some piece \<and> position st' = start))"
    if e: "board cl = createEmptyBoard"
  proof -
    have b: "board (st\<lparr>board := createEmptyBoard\<rparr>) = board cl" using e by simp
    show ?thesis
    proof (cases ?fits)
      case True
      let ?p = "st\<lparr>board := createEmptyBoard, score := Num 0, level := 1, lines := 0, combo := 0,
            gameOver := False, paused := False, gameStarted := True, speed := INITIAL_SPEED,
            heldPiece := None, canHold := True,
            nextPiece := Some (createRandomTetromino r0)\<rparr>"
      from acc [OF True, of ?p] obtain ghost where
        "spawnNewPiece cl ?p r1 r2 =
           Some (Inr (?p\<lparr>currentPiece := Some piece, position := start,
                         nextPiece := Some (createRandomTetromino r2),
                         ghostPosition := ghost\<rparr>))" by blast
      then have "startGame cl st r0 r1 r2 =
           Some (Inr (?p\<lparr>currentPiece := Some piece, position := start,
                         nextPiece := Some (createRandomTetromino r2),
                         ghostPosition := ghost\<rparr>))" by (simp add: startGame_def)
      then show ?thesis using True by (simp add: v [OF b])
    next
      case False
      from rej [OF False] False show ?thesis by (simp add: startGame_def v [OF b])
    qed
  qed
  have l: "(isValidPosition st1 piece start None = Inr False \<longrightarrow>
                (\<exists>st'. lockAndSpawn cl st r1 r2 = Some (Inr st') \<and> gameOver st'
                   \<and> currentPiece st' = currentPiece st \<and> position st' = position st))
             \<and> (isValidPosition st1 piece start None = Inr True \<longrightarrow>
                (\<exists>st'. lockAndSpawn cl st r1 r2 = Some (Inr st') \<and> gameOver st' = gameOver st
                   \<and> currentPiece st' = Some piece \<and> position st' = start))"
    if m: "mergePiece cl st = Inr st1" and b: "board st1 = board cl" for st1
  proof (cases ?fits)
    case True
    from acc [OF True, of st1] mergePiece_frame [OF m] True m
    show ?thesis by (auto simp: lockAndSpawn_def v [OF b])
  next
    case False
    from rej [OF False, of st1] mergePiece_frame [OF m] False m
    show ?thesis by (auto simp: lockAndSpawn_def v [OF b])
  qed
  show ?thesis
  proof (intro conjI allI impI)
    assume "board st = board cl"
    from a [OF this] show "isValidPosition st piece start None = Inr False
               \<or> isValidPosition st piece start None = Inr True" by blast
  qed (use a h s l in \<open>blast+\<close>)
qed

text \<open>On \<open>stackedState\<close> the queued O piece is rejected: the spawn sets only the game-over
  flag, and the hold ends the game with the I piece still active.  On \<open>playingState\<close> the
  queued T piece is accepted and becomes active at column 4, row 0, by the spawn and by
  the hold.  From \<open>initialState\<close> the start spawns the drawn T piece.  On \<open>toweredState\<close>
  the lock leaves the board as it is, the queued O piece is rejected on it, and the O piece
  that was locked is still the active piece.\<close>

theorem spawn_rejected_or_active_witness:
  "int (length (board stackedState)) = BOARD_HEIGHT
   \<and> createRandomTetromino TypeO
       = (case nextPiece stackedState of Some p \<Rightarrow> p | None \<Rightarrow> createRandomTetromino TypeI)
   \<and> hasCell (shape (createRandomTetromino TypeO))
   \<and> \<lparr>pos_x = 4, pos_y = 0\<rparr>
       = \<lparr>pos_x = BOARD_WIDTH div 2 - int (length (hd (shape (createRandomTetromino TypeO)))) div 2,
          pos_y = 0\<rparr>
   \<and> isValidPosition stackedState (createRandomTetromino TypeO) \<lparr>pos_x = 4, pos_y = 0\<rparr> None
       = Inr False
   \<and> spawnNewPiece stackedState stackedState TypeI TypeL
       = Some (Inr (stackedState\<lparr>gameOver := True\<rparr>))
   \<and> currentPiece stackedState = Some (createRandomTetromino TypeI)
   \<and> canHold stackedState \<and> \<not> gameOver stackedState \<and> \<not> paused stackedState
   \<and> heldPiece stackedState = None
   \<and> (\<exists>st'. holdPiece stackedState stackedState TypeI TypeL = Some (Inr st') \<and> gameOver st'
          \<and> currentPiece st' = Some (createRandomTetromino TypeI)
          \<and> position st' = \<lparr>pos_x = 3, pos_y = 0\<rparr>)
   \<and> int (length (board playingState)) = BOARD_HEIGHT
   \<and> createRandomTetromino TypeT
       = (case nextPiece playingState of Some p \<Rightarrow> p | None \<Rightarrow> createRandomTetromino TypeI)
   \<and> hasCell (shape (createRandomTetromino TypeT))
   \<and> \<lparr>pos_x = 4, pos_y = 0\<rparr>
       = \<lparr>pos_x = BOARD_WIDTH div 2 - int (length (hd (shape (createRandomTetromino TypeT)))) div 2,
          pos_y = 0\<rparr>
   \<and> isValidPosition playingState (createRandomTetromino TypeT) \<lparr>pos_x = 4, pos_y = 0\<rparr> None
       = Inr True
   \<and> spawnNewPiece playingState playingState TypeI TypeL
       = Some (Inr (playingState\<lparr>currentPiece := Some (createRandomTetromino TypeT),
                                 position := \<lparr>pos_x = 4, pos_y = 0\<rparr>,
                                 nextPiece := Some (createRandomTetromino TypeL),
                                 ghostPosition := \<lparr>pos_x = 4, pos_y = 18\<rparr>\<rparr>))
   \<and> currentPiece playingState = Some (createRandomTetromino TypeO)
   \<and> canHold playingState \<and> \<not> gameOver playingState \<and> \<not> paused playingState
   \<and> heldPiece playingState = None
   \<and> (\<exists>st'. holdPiece playingState playingState TypeI TypeL = Some (Inr st') \<and> \<not> gameOver st'
          \<and> currentPiece st' = Some (createRandomTetromino TypeT)
          \<and> position st' = \<lparr>pos_x = 4, pos_y = 0\<rparr>)
   \<and> int (length (board initialState)) = BOARD_HEIGHT \<and> board initialState = createEmptyBoard
   \<and> createRandomTetromino TypeT
       = (case nextPiece initialState of Some p \<Rightarrow> p | None \<Rightarrow> createRandomTetromino TypeT)
   \<and> isValidPosition (initialState\<lparr>board := createEmptyBoard\<rparr>) (createRandomTetromino TypeT)
        \<lparr>pos_x = 4, pos_y = 0\<rparr> None = Inr True
   \<and> (\<exists>st'. startGame initialState initialState TypeI TypeT TypeL = Some (Inr st')
          \<and> \<not> gameOver st' \<and> currentPiece st' = Some (createRandomTetromino TypeT)
          \<and> position st' = \<lparr>pos_x = 4, pos_y = 0\<rparr>)
   \<and> int (length (board toweredState)) = BOARD_HEIGHT
   \<and> createRandomTetromino TypeO
       = (case nextPiece toweredState of Some p \<Rightarrow> p | None \<Rightarrow> createRandomTetromino TypeI)
   \<and> mergePiece toweredState toweredState = Inr toweredState
   \<and> isValidPosition toweredState (createRandomTetromino TypeO) \<lparr>pos_x = 4, pos_y = 0\<rparr> None
       = Inr False
   \<and> (\<exists>st'. lockAndSpawn toweredState toweredState TypeI TypeL = Some (Inr st') \<and> gameOver st'
          \<and> currentPiece st' = Some (createRandomTetromino TypeO)
          \<and> position st' = \<lparr>pos_x = 4, pos_y = 0\<rparr>)"
proof -
  let ?O = "createRandomTetromino TypeO" and ?T = "createRandomTetromino TypeT"
  let ?I = "createRandomTetromino TypeI"
  let ?start = "\<lparr>pos_x = 4, pos_y = 0\<rparr>"
  have s1: "int (length (board stackedState)) = BOARD_HEIGHT" by code_simp
  have s2: "?O = (case nextPiece stackedState of Some p \<Rightarrow> p | None \<Rightarrow> ?I)" by code_simp
  have s3: "hasCell (shape ?O)" by code_simp
  have s4: "?start = \<lparr>pos_x = BOARD_WIDTH div 2 - int (length (hd (shape ?O))) div 2, pos_y = 0\<rparr>"
    by code_simp
  have s5: "isValidPosition stackedState ?O ?start None = Inr False" by code_simp
  have s6: "currentPiece stackedState = Some ?I" by code_simp
  have s7: "canHold stackedState" "\<not> gameOver stackedState" "\<not> paused stackedState"
    "heldPiece stackedState = None" by code_simp+
  have s8: "position stackedState = \<lparr>pos_x = 3, pos_y = 0\<rparr>" by code_simp
  note S = spawn_rejected_or_active [OF s1 s2 s3 s4, of stackedState TypeL TypeI]
  from S s5 have r1: "spawnNewPiece stackedState stackedState TypeI TypeL
       = Some (Inr (stackedState\<lparr>gameOver := True\<rparr>))" by blast
  from S s5 s6 s7 have "\<exists>st'. holdPiece stackedState stackedState TypeI TypeL = Some (Inr st')
          \<and> gameOver st' \<and> currentPiece st' = currentPiece stackedState
          \<and> position st' = position stackedState" by blast
  then have r2: "\<exists>st'. holdPiece stackedState stackedState TypeI TypeL = Some (Inr st')
          \<and> gameOver st' \<and> currentPiece st' = Some ?I \<and> position st' = \<lparr>pos_x = 3, pos_y = 0\<rparr>"
    by (simp add: s6 s8)
  have p1: "int (length (board playingState)) = BOARD_HEIGHT" by code_simp
  have p2: "?T = (case nextPiece playingState of Some p \<Rightarrow> p | None \<Rightarrow> ?I)" by code_simp
  have p3: "hasCell (shape ?T)" by code_simp
  have p4: "?start = \<lparr>pos_x = BOARD_WIDTH div 2 - int (length (hd (shape ?T))) div 2, pos_y = 0\<rparr>"
    by code_simp
  have p5: "isValidPosition playingState ?T ?start None = Inr True" by code_simp
  have p6: "calculateGhostPosition playingState ?T ?start = Some (Inr \<lparr>pos_x = 4, pos_y = 18\<rparr>)"
    by code_simp
  have p7: "currentPiece playingState = Some ?O" by code_simp
  have p8: "canHold playingState" "\<not> gameOver playingState" "\<not> paused playingState"
    "heldPiece playingState = None" by code_simp+
  note P = spawn_rejected_or_active [OF p1 p2 p3 p4, of playingState TypeL TypeI]
  from P p5 p6 have r3: "spawnNewPiece playingState playingState TypeI TypeL
       = Some (Inr (playingState\<lparr>currentPiece := Some ?T, position := ?start,
                                 nextPiece := Some (createRandomTetromino TypeL),
                                 ghostPosition := \<lparr>pos_x = 4, pos_y = 18\<rparr>\<rparr>))" by auto
  from P p5 p7 p8 have "\<exists>st'. holdPiece playingState playingState TypeI TypeL = Some (Inr st')
          \<and> gameOver st' = gameOver playingState \<and> currentPiece st' = Some ?T
          \<and> position st' = ?start" by blast
  then have r4: "\<exists>st'. holdPiece playingState playingState TypeI TypeL = Some (Inr st')
          \<and> \<not> gameOver st' \<and> currentPiece st' = Some ?T \<and> position st' = ?start"
    using p8(2) by auto
  have i1: "int (length (board initialState)) = BOARD_HEIGHT" by code_simp
  have i2: "board initialState = createEmptyBoard" by code_simp
  have i3: "?T = (case nextPiece initialState of Some p \<Rightarrow> p | None \<Rightarrow> ?T)" by code_simp
  have i4: "isValidPosition (initialState\<lparr>board := createEmptyBoard\<rparr>) ?T ?start None = Inr True"
    by code_simp
  from spawn_rejected_or_active [OF i1 i3 p3 p4, of initialState TypeL TypeI] i2 i4
  have r5: "\<exists>st'. startGame initialState initialState TypeI TypeT TypeL = Some (Inr st')
          \<and> \<not> gameOver st' \<and> currentPiece st' = Some ?T \<and> position st' = ?start" by blast
  have t1: "int (length (board toweredState)) = BOARD_HEIGHT" by code_simp
  have t2: "?O = (case nextPiece toweredState of Some p \<Rightarrow> p | None \<Rightarrow> ?I)" by code_simp
  have t3: "mergePiece toweredState toweredState = Inr toweredState" by code_simp
  have t4: "isValidPosition toweredState ?O ?start None = Inr False" by code_simp
  have t5: "currentPiece toweredState = Some ?O" "position toweredState = ?start" by code_simp+
  from spawn_rejected_or_active [OF t1 t2 s3 s4, of toweredState TypeL TypeI] t3 t4
  have "\<exists>st'. lockAndSpawn toweredState toweredState TypeI TypeL = Some (Inr st') \<and> gameOver st'
          \<and> currentPiece st' = currentPiece toweredState
          \<and> position st' = position toweredState" by blast
  then have r6: "\<exists>st'. lockAndSpawn toweredState toweredState TypeI TypeL = Some (Inr st')
          \<and> gameOver st' \<and> currentPiece st' = Some ?O \<and> position st' = ?start"
    by (simp add: t5)
  from s1 s2 s3 s4 s5 r1 s6 s7 r2 p1 p2 p3 p4 p5 r3 p7 p8 r4 i1 i2 i3 i4 r5 t1 t2 t3 t4 r6
  show ?thesis by (intro conjI) assumption+
qed

section \<open>C3: the rotated shape\<close>

text \<open>
  Claim C3 says that the rotated cell at row \<open>r\<close>, column \<open>c\<close> is the old cell at row \<open>c\<close>,
  column \<open>R - 1 - r\<close>.  For the T piece (\<open>R = 2\<close>) the rotated cell at row 0, column 1 is 0,
  while the old cell at row 1, column \<open>2 - 1 - 0\<close> is 1.
\<close>

theorem rotatePiece_cell_formula_counterexample:
  "rotatePiece (createRandomTetromino TypeT)
     = Inr ((createRandomTetromino TypeT)
              \<lparr>shape := [[Some 1, Some 0], [Some 1, Some 1], [Some 1, Some 0]]\<rparr>)
   \<and> length (shape (createRandomTetromino TypeT)) = 2
   \<and> getNum ([[Some 1, Some 0], [Some 1, Some 1], [Some 1, Some 0]] ! 0) 1 = Some 0
   \<and> getNum (shape (createRandomTetromino TypeT) ! 1) (2 - 1 - 0) = Some 1"
  by code_simp

text \<open>
  Claim C3, amended.  For every shape with \<open>R \<ge> 1\<close> rows, \<open>rotatePiece\<close> returns a piece of
  the same kind and colour whose shape has one row for each column of the old first row,
  each of \<open>R\<close> cells, and whose cell at row \<open>r\<close>, column \<open>c\<close> is what the old shape reads at
  row \<open>R - 1 - c\<close>, column \<open>r\<close> (a clockwise quarter turn).
\<close>

theorem rotatePiece_cells:
  assumes "shape piece \<noteq> []"
  shows "\<exists>rotated. rotatePiece piece = Inr rotated
           \<and> type rotated = type piece \<and> color rotated = color piece
           \<and> length (shape rotated) = length (hd (shape piece))
           \<and> (\<forall>r < length (shape rotated).
                 length (shape rotated ! r) = length (shape piece)
                 \<and> (\<forall>c < length (shape piece).
                       getNum (shape rotated ! r) c
                         = getNum (shape piece ! (length (shape piece) - 1 - c)) r))"
proof -
  from assms obtain row0 rest where s: "shape piece = row0 # rest"
    by (cases "shape piece") auto
  let ?rot = "piece\<lparr>shape := map (\<lambda>i. rev (map (\<lambda>row. getNum row i) (shape piece)))
                                  [0..<length row0]\<rparr>"
  have r: "rotatePiece piece = Inr ?rot" by (simp add: rotatePiece_def s)
  have l: "length (shape ?rot) = length (hd (shape piece))" by (simp add: s)
  have c: "length (shape ?rot ! r) = length (shape piece)
           \<and> (\<forall>c < length (shape piece).
                 getNum (shape ?rot ! r) c
                   = getNum (shape piece ! (length (shape piece) - 1 - c)) r)"
    if "r < length (shape ?rot)" for r
  proof -
    from that have rl: "r < length row0" by simp
    have row: "shape ?rot ! r = rev (map (\<lambda>row. getNum row r) (shape piece))"
      using rl by simp
    show ?thesis
      unfolding row by (simp add: getNum_def rev_nth)
  qed
  from r l c show ?thesis by (intro exI [of _ ?rot]) simp
qed

text \<open>The T piece: 3 rows of 2 cells after the rotation.\<close>

theorem rotatePiece_cells_witness:
  "shape (createRandomTetromino TypeT) \<noteq> []
   \<and> rotatePiece (createRandomTetromino TypeT)
       = Inr ((createRandomTetromino TypeT)
                \<lparr>shape := [[Some 1, Some 0], [Some 1, Some 1], [Some 1, Some 0]]\<rparr>)
   \<and> (\<exists>rotated. rotatePiece (createRandomTetromino TypeT) = Inr rotated
         \<and> type rotated = TypeT \<and> color rotated = ''#a000f0''
         \<and> length (shape rotated) = 3
         \<and> (\<forall>r < length (shape rotated).
               length (shape rotated ! r) = 2
               \<and> (\<forall>c < 2. getNum (shape rotated ! r) c
                            = getNum (shape (createRandomTetromino TypeT) ! (2 - 1 - c)) r)))"
proof -
  let ?T = "createRandomTetromino TypeT"
  have h: "shape ?T \<noteq> []" by code_simp
  have e: "rotatePiece ?T = Inr (?T\<lparr>shape := [[Some 1, Some 0], [Some 1, Some 1], [Some 1, Some 0]]\<rparr>)"
    by code_simp
  have f: "type ?T = TypeT" "color ?T = ''#a000f0''" "length (hd (shape ?T)) = 3"
    "length (shape ?T) = 2" by code_simp+
  from rotatePiece_cells [OF h] have
    "\<exists>rotated. rotatePiece ?T = Inr rotated
         \<and> type rotated = TypeT \<and> color rotated = ''#a000f0''
         \<and> length (shape rotated) = 3
         \<and> (\<forall>r < length (shape rotated).
               length (shape rotated ! r) = 2
               \<and> (\<forall>c < 2. getNum (shape rotated ! r) c = getNum (shape ?T ! (2 - 1 - c)) r))"
    by (simp only: f)
  with h e show ?thesis by blast
qed

section \<open>C4: the soft-drop point\<close>

text \<open>
  Claim C4: the soft-drop key adds 1 point when the move down is accepted and 0 points when
  it is rejected or the action is a no-op.  The key handler adds the point after
  \<open>moveDown\<close> returns, whatever \<open>moveDown\<close> did: in a paused game, before the game has
  started, and when the move is rejected and the piece locks (here without a line clear),
  the score goes from 0 to 1.
\<close>

theorem soft_drop_point_when_nothing_moves:
  "paused pausedState \<and> score pausedState = Num 0
   \<and> handleKeyPress pausedState pausedState ''ArrowDown'' TypeI TypeO TypeL
       = Some (Inr (pausedState\<lparr>score := Num 1\<rparr>))
   \<and> \<not> gameStarted initialState \<and> score initialState = Num 0
   \<and> handleKeyPress initialState initialState ''ArrowDown'' TypeI TypeO TypeL
       = Some (Inr (initialState\<lparr>score := Num 1\<rparr>))
   \<and> isValidPosition restingState (createRandomTetromino TypeO) \<lparr>pos_x = 4, pos_y = 19\<rparr> None
       = Inr False
   \<and> score restingState = Num 0
   \<and> (case handleKeyPress restingState restingState ''ArrowDown'' TypeI TypeO TypeL of
        Some (Inr st') \<Rightarrow>
          score st' = Num 1 \<and> currentPiece st' = Some (createRandomTetromino TypeT)
          \<and> position st' = \<lparr>pos_x = 4, pos_y = 0\<rparr>
      | _ \<Rightarrow> False)"
  by code_simp

section \<open>C5: the lock, not the spawn, re-enables hold\<close>




section \<open>C6: rotation tries the kicks in order\<close>

text \<open>
  Claim C6.  In a running game on a board of 20 rows, \<open>rotate\<close> tries the rotated piece at
  the current position moved by each of the offsets (0,0), (-1,0), (1,0), (0,-1), (-2,0),
  (2,0), in this order.  The first offset at which the validator accepts the rotated piece
  gives the new piece and position (and the ghost of that placement); when the validator
  rejects all six, the state is left as it is.
\<close>

theorem rotate_tries_kicks_in_order:
  assumes "int (length (board cl)) = BOARD_HEIGHT"
    and "currentPiece cl = Some piece" and "\<not> gameOver cl" and "\<not> paused cl"
    and "rotatePiece piece = Inr rotated" and "hasCell (shape rotated)"
  shows "map (\<lambda>k. (pos_x k, pos_y k)) kicks = [(0, 0), (- 1, 0), (1, 0), (0, - 1), (- 2, 0), (2, 0)]
       \<and> (\<forall>i < length kicks.
             isValidPosition cl rotated (offsetBy (position cl) (kicks ! i)) None = Inr True
             \<and> (\<forall>j < i. isValidPosition cl rotated (offsetBy (position cl) (kicks ! j)) None
                          = Inr False)
             \<longrightarrow> (\<exists>ghost.
                    calculateGhostPosition cl rotated (offsetBy (position cl) (kicks ! i))
                      = Some (Inr ghost)
                    \<and> rotateAction cl st =
                        Some (Inr (st\<lparr>currentPiece := Some rotated,
                                      position := offsetBy (position cl) (kicks ! i),
                                      ghostPosition := ghost\<rparr>))))
       \<and> ((\<forall>j < length kicks.
              isValidPosition cl rotated (offsetBy (position cl) (kicks ! j)) None = Inr False)
            \<longrightarrow> rotateAction cl st = Some (Inr st))"
proof -
  have r: "rotateAction cl st = tryKicks cl st rotated kicks"
    using assms(2-5) by (simp add: rotateAction_def)
  have a: "map (\<lambda>k. (pos_x k, pos_y k)) kicks = [(0, 0), (- 1, 0), (1, 0), (0, - 1), (- 2, 0), (2, 0)]"
    by (simp add: kicks_def)
  have b: "\<exists>ghost.
             calculateGhostPosition cl rotated (offsetBy (position cl) (kicks ! i)) = Some (Inr ghost)
             \<and> rotateAction cl st =
                 Some (Inr (st\<lparr>currentPiece := Some rotated,
                               position := offsetBy (position cl) (kicks ! i),
                               ghostPosition := ghost\<rparr>))"
    if i: "i < length kicks"
      and v: "isValidPosition cl rotated (offsetBy (position cl) (kicks ! i)) None = Inr True"
      and n: "\<forall>j < i. isValidPosition cl rotated (offsetBy (position cl) (kicks ! j)) None = Inr False"
    for i
  proof -
    from loops_total [OF assms(1) assms(6), of "offsetBy (position cl) (kicks ! i)" 0]
    obtain g where "ghostLoop cl rotated (pos_x (offsetBy (position cl) (kicks ! i)))
                      (pos_y (offsetBy (position cl) (kicks ! i))) = Some (Inr g)"
      by blast
    then have "calculateGhostPosition cl rotated (offsetBy (position cl) (kicks ! i))
                 = Some (Inr \<lparr>pos_x = pos_x (offsetBy (position cl) (kicks ! i)), pos_y = g\<rparr>)"
      by (simp add: calculateGhostPosition_def)
    with tryKicks_first [OF i v n, of st] r show ?thesis by simp
  qed
  have c: "rotateAction cl st = Some (Inr st)"
    if "\<forall>j < length kicks.
          isValidPosition cl rotated (offsetBy (position cl) (kicks ! j)) None = Inr False"
  proof -
    from that have "\<forall>k \<in> set kicks. isValidPosition cl rotated (offsetBy (position cl) k) None = Inr False"
      by (metis in_set_conv_nth)
    from tryKicks_none [OF this] r show ?thesis by simp
  qed
  from a b c show ?thesis by blast
qed

text \<open>The upright I piece three columns from the right wall: the rotated piece does not
  fit at offset (0,0) and fits at offset (-1,0), so it moves one column to the left.  In the
  last column no offset fits and nothing changes.\<close>

theorem rotate_tries_kicks_in_order_witness:
  "int (length (board wallState)) = BOARD_HEIGHT
   \<and> currentPiece wallState = Some verticalI \<and> \<not> gameOver wallState \<and> \<not> paused wallState
   \<and> rotatePiece verticalI = Inr (createRandomTetromino TypeI)
   \<and> hasCell (shape (createRandomTetromino TypeI))
   \<and> isValidPosition wallState (createRandomTetromino TypeI)
        (offsetBy (position wallState) (kicks ! 0)) None = Inr False
   \<and> isValidPosition wallState (createRandomTetromino TypeI)
        (offsetBy (position wallState) (kicks ! 1)) None = Inr True
   \<and> rotateAction wallState wallState =
        Some (Inr (wallState\<lparr>currentPiece := Some (createRandomTetromino TypeI),
                             position := \<lparr>pos_x = 6, pos_y = 0\<rparr>,
                             ghostPosition := \<lparr>pos_x = 6, pos_y = 19\<rparr>\<rparr>))
   \<and> int (length (board cornerState)) = BOARD_HEIGHT
   \<and> currentPiece cornerState = Some verticalI \<and> \<not> gameOver cornerState
   \<and> \<not> paused cornerState
   \<and> list_all (\<lambda>k. isValidPosition cornerState (createRandomTetromino TypeI)
                      (offsetBy (position cornerState) k) None = Inr False) kicks
   \<and> rotateAction cornerState cornerState = Some (Inr cornerState)"
proof -
  let ?I = "createRandomTetromino TypeI"
  have w1: "int (length (board wallState)) = BOARD_HEIGHT" by code_simp
  have w2: "currentPiece wallState = Some verticalI" by code_simp
  have w3: "\<not> gameOver wallState" by code_simp
  have w4: "\<not> paused wallState" by code_simp
  have r: "rotatePiece verticalI = Inr ?I" by code_simp
  have c: "hasCell (shape ?I)" by code_simp
  have k0: "isValidPosition wallState ?I (offsetBy (position wallState) (kicks ! 0)) None = Inr False"
    by code_simp
  have k1: "isValidPosition wallState ?I (offsetBy (position wallState) (kicks ! 1)) None = Inr True"
    by code_simp
  have i1: "1 < length kicks" by (simp add: kicks_def)
  have n1: "\<forall>j < 1. isValidPosition wallState ?I (offsetBy (position wallState) (kicks ! j)) None
                     = Inr False"
    using k0 by simp
  have g: "calculateGhostPosition wallState ?I (offsetBy (position wallState) (kicks ! 1))
             = Some (Inr \<lparr>pos_x = 6, pos_y = 19\<rparr>)" by code_simp
  have p: "offsetBy (position wallState) (kicks ! 1) = \<lparr>pos_x = 6, pos_y = 0\<rparr>" by code_simp
  from rotate_tries_kicks_in_order [OF w1 w2 w3 w4 r c, of wallState] i1 k1 n1
  obtain ghost where
    "calculateGhostPosition wallState ?I (offsetBy (position wallState) (kicks ! 1))
       = Some (Inr ghost)"
    "rotateAction wallState wallState =
       Some (Inr (wallState\<lparr>currentPiece := Some ?I,
                            position := offsetBy (position wallState) (kicks ! 1),
                            ghostPosition := ghost\<rparr>))"
    by blast
  with g p have wall: "rotateAction wallState wallState =
        Some (Inr (wallState\<lparr>currentPiece := Some ?I, position := \<lparr>pos_x = 6, pos_y = 0\<rparr>,
                             ghostPosition := \<lparr>pos_x = 6, pos_y = 19\<rparr>\<rparr>))"
    by simp
  have c1: "int (length (board cornerState)) = BOARD_HEIGHT" by code_simp
  have c2: "currentPiece cornerState = Some verticalI" by code_simp
  have c3: "\<not> gameOver cornerState" by code_simp
  have c4: "\<not> paused cornerState" by code_simp
  have all: "list_all (\<lambda>k. isValidPosition cornerState ?I
                      (offsetBy (position cornerState) k) None = Inr False) kicks"
    by code_simp
  then have "\<forall>j < length kicks.
      isValidPosition cornerState ?I (offsetBy (position cornerState) (kicks ! j)) None = Inr False"
    by (simp add: list_all_length)
  with rotate_tries_kicks_in_order [OF c1 c2 c3 c4 r c, of cornerState]
  have corner: "rotateAction cornerState cornerState = Some (Inr cornerState)" by blast
  from w1 w2 w3 w4 r c k0 k1 wall c1 c2 c3 c4 all corner show ?thesis by blast
qed

section \<open>C7: the score of a line clear\<close>

text \<open>
  Claim C7.  A lock whose merged board has \<open>count\<close> full rows, \<open>1 \<le> count \<le> 4\<close>, adds
  \<open>(table[count] + combo' * 50) * level\<close> to the score, where \<open>table\<close> is
  \<open>[0, 100, 300, 500, 800]\<close>, \<open>combo'\<close> is the combo after its increment for this clear
  and \<open>level\<close> is the level the handler read before the clear.  Two lines at combo 1 and
  level 1 add 350; four lines at combo 1 and level 3 add 2550.
\<close>

theorem line_clear_score:
  assumes "currentPiece cl = Some piece"
    and "lockPiece (board cl) piece (position cl) = Inr merged"
    and "length (filter isRowFull merged) = count"
    and "1 \<le> count" and "count \<le> 4"
    and "score st = Num sc"
  shows "\<exists>st'. mergePiece cl st = Inr st'
           \<and> combo st' = combo cl + 1
           \<and> score st' = Num (sc + ([0, 100, 300, 500, 800] ! count + combo st' * 50) * level cl)
           \<and> scoreDelta 2 1 1 = Num 350 \<and> scoreDelta 4 1 3 = Num 2550"
proof -
  have c: "clearFullRows merged = (padRows (filter (\<lambda>row. \<not> isRowFull row) merged), count)"
    using assms(3) by (simp add: clearFullRows_def filterRows_char)
  have d: "scoreDelta count (combo cl + 1) (level cl)
             = Num (([0, 100, 300, 500, 800] ! count + (combo cl + 1) * 50) * level cl)"
    using assms(5) by (simp add: scoreDelta_def)
  let ?st = "(checkLines cl merged (st\<lparr>board := merged\<rparr>))\<lparr>canHold := True\<rparr>"
  have m: "mergePiece cl st = Inr ?st"
    using assms(1,2) by (simp add: mergePiece_def)
  have co: "combo ?st = combo cl + 1"
    using assms(4) by (simp add: checkLines_def c Let_def)
  have sc: "score ?st = Num (sc + ([0, 100, 300, 500, 800] ! count + (combo cl + 1) * 50) * level cl)"
    using assms(4,6) by (simp add: checkLines_def c d Let_def)
  have e: "scoreDelta 2 1 1 = Num 350 \<and> scoreDelta 4 1 3 = Num 2550"
    by (simp add: scoreDelta_def)
  from m co sc e show ?thesis by (intro exI [of _ ?st]) simp
qed

text \<open>The O piece completing the two bottom rows, at combo 0 and level 1: the lock adds
  \<open>(300 + 1 * 50) * 1 = 350\<close>.\<close>

theorem line_clear_score_witness:
  "currentPiece twoRowsState = Some (createRandomTetromino TypeO)
   \<and> lockPiece (board twoRowsState) (createRandomTetromino TypeO) (position twoRowsState)
       = Inr (replicate 18 (replicate 10 Null) @ [partRow 0 10, partRow 0 10])
   \<and> length (filter isRowFull (replicate 18 (replicate 10 Null) @ [partRow 0 10, partRow 0 10]))
       = 2
   \<and> (1::nat) \<le> 2 \<and> (2::nat) \<le> 4
   \<and> score twoRowsState = Num 0 \<and> combo twoRowsState = 0 \<and> level twoRowsState = 1
   \<and> (\<exists>st'. mergePiece twoRowsState twoRowsState = Inr st'
          \<and> combo st' = 1 \<and> score st' = Num 350)"
proof -
  have h1: "currentPiece twoRowsState = Some (createRandomTetromino TypeO)" by code_simp
  have h2: "lockPiece (board twoRowsState) (createRandomTetromino TypeO) (position twoRowsState)
       = Inr (replicate 18 (replicate 10 Null) @ [partRow 0 10, partRow 0 10])" by code_simp
  have h3: "length (filter isRowFull (replicate 18 (replicate 10 Null) @ [partRow 0 10, partRow 0 10]))
       = 2" by code_simp
  have h4: "(1::nat) \<le> 2" and h5: "(2::nat) \<le> 4" by simp_all
  have h6: "score twoRowsState = Num 0" by code_simp
  have h7: "combo twoRowsState = 0" by code_simp
  have h8: "level twoRowsState = 1" by code_simp
  from line_clear_score [OF h1 h2 h3 h4 h5 h6] obtain st' where
    "mergePiece twoRowsState twoRowsState = Inr st'"
    "combo st' = combo twoRowsState + 1"
    "score st' = Num (0 + ([0, 100, 300, 500, 800] ! 2 + combo st' * 50) * level twoRowsState)"
    by blast
  then have "mergePiece twoRowsState twoRowsState = Inr st' \<and> combo st' = 1 \<and> score st' = Num 350"
    by (simp add: h7 h8)
  then show ?thesis using h1 h2 h3 h4 h5 h6 h7 h8 by blast
qed

section \<open>C8: line clearing keeps the order of the remaining rows\<close>

text \<open>
  Claim C8.  On a board of 20 rows that has exactly \<open>k\<close> full rows, the line-clearing
  part of \<open>checkLines\<close> counts \<open>k\<close> cleared lines and yields a board of 20 rows: \<open>k\<close>
  empty rows on top, then the rows that are not full, in their original order.  This is
  the board \<open>checkLines\<close> installs when \<open>k > 0\<close>; for \<open>k = 0\<close> it leaves the pending board
  as it is.
\<close>

theorem clear_full_rows_keeps_order:
  assumes "int (length b) = BOARD_HEIGHT"
  shows "clearFullRows b =
           (replicate (length (filter isRowFull b)) (replicate 10 Null)
              @ filter (\<lambda>row. \<not> isRowFull row) b,
            length (filter isRowFull b))
       \<and> length (fst (clearFullRows b)) = 20
       \<and> board (checkLines cl b st) =
           (if length (filter isRowFull b) > 0 then fst (clearFullRows b) else board st)"
proof -
  have sum: "length (filter isRowFull b) + length (filter (\<lambda>row. \<not> isRowFull row) b) = length b"
    by (rule sum_length_filter_compl)
  have c: "clearFullRows b =
           (replicate (length (filter isRowFull b)) (replicate 10 Null)
              @ filter (\<lambda>row. \<not> isRowFull row) b,
            length (filter isRowFull b))"
    using clearFullRows_char [OF assms] by (simp add: BOARD_WIDTH_def)
  have l: "length (fst (clearFullRows b)) = 20"
    using sum assms by (simp add: c BOARD_HEIGHT_def)
  have k: "board (checkLines cl b st) =
           (if length (filter isRowFull b) > 0 then fst (clearFullRows b) else board st)"
    by (simp add: checkLines_def c Let_def)
  from c l k show ?thesis by blast
qed

text \<open>The theorem on a board whose rows 17 and 19 are full.\<close>

theorem clear_full_rows_keeps_order_witness:
  "int (length mixedBoard) = BOARD_HEIGHT
   \<and> length (filter isRowFull mixedBoard) = 2
   \<and> clearFullRows mixedBoard =
       (replicate 18 (replicate 10 Null) @ [partRow 0 3, partRow 2 5], 2)
   \<and> length (fst (clearFullRows mixedBoard)) = 20
   \<and> board (checkLines playingState mixedBoard playingState) =
       replicate 18 (replicate 10 Null) @ [partRow 0 3, partRow 2 5]"
proof -
  have h: "int (length mixedBoard) = BOARD_HEIGHT" by code_simp
  have k: "length (filter isRowFull mixedBoard) = 2" by code_simp
  have f: "filter (\<lambda>row. \<not> isRowFull row) mixedBoard
             = replicate 16 (replicate 10 Null) @ [partRow 0 3, partRow 2 5]" by code_simp
  have r: "replicate 2 (replicate 10 Null) @ replicate 16 (replicate 10 Null) @ [partRow 0 3, partRow 2 5]
     = replicate 18 (replicate 10 Null) @ [partRow 0 3, partRow 2 5]" by code_simp
  from clear_full_rows_keeps_order [OF h, of playingState playingState]
  show ?thesis using h by (simp add: k f r)
qed

section \<open>C9: the ghost position is the resting point of the hard drop\<close>

text \<open>
  Claim C9.  On a board of 20 rows, for a piece with an occupied cell (as every piece of
  the game has, see \<open>gamePiece_shape\<close>) at a position the validator accepts, \<open>calculateGhostPosition\<close> returns a position with the same \<open>x\<close> and a
  \<open>y\<close> that is not above the start; the validator accepts that position and rejects the
  position one row lower; and the loop of \<open>hardDrop\<close>, started from the same position,
  stops at that same position.
\<close>

theorem ghost_is_resting_point:
  assumes "int (length (board cl)) = BOARD_HEIGHT"
    and "hasCell (shape piece)"
    and "isValidPosition cl piece pos None = Inr True"
  shows "\<exists>ghost. calculateGhostPosition cl piece pos = Some (Inr ghost)
           \<and> pos_x ghost = pos_x pos
           \<and> pos_y pos \<le> pos_y ghost
           \<and> isValidPosition cl piece ghost None = Inr True
           \<and> isValidPosition cl piece \<lparr>pos_x = pos_x ghost, pos_y = pos_y ghost + 1\<rparr> None
                = Inr False
           \<and> dropLoop cl piece pos 0 = Some (Inr (ghost, pos_y ghost - pos_y pos))"
proof -
  from loops_total [OF assms(1,2), of pos 0] obtain g where
    g: "ghostLoop cl piece (pos_x pos) (pos_y pos) = Some (Inr g)"
       "dropLoop cl piece pos 0 = Some (Inr (pos\<lparr>pos_y := g\<rparr>, 0 + (g - pos_y pos)))"
       "pos_y pos \<le> g"
       "\<forall>y'. pos_y pos < y' \<and> y' \<le> g \<longrightarrow>
              fits (board cl) (shape piece) \<lparr>pos_x = pos_x pos, pos_y = y'\<rparr>"
       "\<not> fits (board cl) (shape piece) \<lparr>pos_x = pos_x pos, pos_y = g + 1\<rparr>"
    by blast
  let ?ghost = "\<lparr>pos_x = pos_x pos, pos_y = g\<rparr>"
  have start: "fits (board cl) (shape piece) pos"
    using assms(3) by (simp add: isValidPosition_fits [OF assms(1)])
  have "fits (board cl) (shape piece) ?ghost"
  proof (cases "g = pos_y pos")
    case True
    then have "?ghost = pos" by simp
    with start show ?thesis by simp
  next
    case False
    with g(3) g(4) show ?thesis by simp
  qed
  then have v: "isValidPosition cl piece ?ghost None = Inr True"
    by (simp add: isValidPosition_fits [OF assms(1)])
  have w: "isValidPosition cl piece \<lparr>pos_x = pos_x ?ghost, pos_y = pos_y ?ghost + 1\<rparr> None = Inr False"
    using g(5) by (simp add: isValidPosition_fits [OF assms(1)])
  have c: "calculateGhostPosition cl piece pos = Some (Inr ?ghost)"
    by (simp add: calculateGhostPosition_def g(1))
  have d: "dropLoop cl piece pos 0 = Some (Inr (?ghost, pos_y ?ghost - pos_y pos))"
    using g(2) by simp
  from c v w d g(3) show ?thesis
    by (intro exI [of _ ?ghost]) simp
qed

text \<open>The O piece at its spawn position on the empty board: the ghost lies in rows 18
  and 19.\<close>

theorem ghost_is_resting_point_witness:
  "int (length (board playingState)) = BOARD_HEIGHT
   \<and> hasCell (shape (createRandomTetromino TypeO))
   \<and> isValidPosition playingState (createRandomTetromino TypeO) \<lparr>pos_x = 4, pos_y = 0\<rparr> None
       = Inr True
   \<and> calculateGhostPosition playingState (createRandomTetromino TypeO) \<lparr>pos_x = 4, pos_y = 0\<rparr>
       = Some (Inr \<lparr>pos_x = 4, pos_y = 18\<rparr>)
   \<and> isValidPosition playingState (createRandomTetromino TypeO) \<lparr>pos_x = 4, pos_y = 18\<rparr> None
       = Inr True
   \<and> isValidPosition playingState (createRandomTetromino TypeO) \<lparr>pos_x = 4, pos_y = 18 + 1\<rparr> None
       = Inr False
   \<and> dropLoop playingState (createRandomTetromino TypeO) \<lparr>pos_x = 4, pos_y = 0\<rparr> 0
       = Some (Inr (\<lparr>pos_x = 4, pos_y = 18\<rparr>, 18 - 0))"
proof -
  have h1: "int (length (board playingState)) = BOARD_HEIGHT" by code_simp
  have h2: "hasCell (shape (createRandomTetromino TypeO))" by code_simp
  have h3: "isValidPosition playingState (createRandomTetromino TypeO) \<lparr>pos_x = 4, pos_y = 0\<rparr> None
       = Inr True" by code_simp
  have g: "calculateGhostPosition playingState (createRandomTetromino TypeO) \<lparr>pos_x = 4, pos_y = 0\<rparr>
       = Some (Inr \<lparr>pos_x = 4, pos_y = 18\<rparr>)" by code_simp
  from ghost_is_resting_point [OF h1 h2 h3] g h1 h2 h3
  show ?thesis by auto
qed

section \<open>C10: locking writes the cells under the piece and no other\<close>

text \<open>
  Claim C10.  When every occupied shape row that lies at a board row \<open>\<ge> 0\<close> lies at a row
  the board has, the loops of \<open>mergePiece\<close> return a board with as many rows as before, in
  which a cell reads as the colour of the piece when an occupied shape cell lies over it,
  and as it read before otherwise.  Shape cells above row 0 write nothing.  This is the
  board that \<open>mergePiece\<close> sets and hands to \<open>checkLines\<close>.
\<close>

theorem lock_changes_only_covered_cells:
  assumes "rowsOnBoard b (shape piece) pos"
  shows "\<exists>newBoard. lockPiece b piece pos = Inr newBoard
           \<and> length newBoard = length b
           \<and> (\<forall>r < length b. \<forall>c.
                 getCell (newBoard ! r) c =
                   (if covered (shape piece) pos r c then Color (color piece)
                    else getCell (b ! r) c))
           \<and> (currentPiece cl = Some piece \<and> board cl = b \<and> position cl = pos \<longrightarrow>
                 mergePiece cl st =
                   Inr ((checkLines cl newBoard (st\<lparr>board := newBoard\<rparr>))\<lparr>canHold := True\<rparr>))"
proof -
  from lockPiece_char [OF assms] obtain newBoard where
    nb: "lockPiece b piece pos = Inr newBoard" "length newBoard = length b"
        "\<forall>r < length b. \<forall>c.
           getCell (newBoard ! r) c =
             (if covered (shape piece) pos r c then Color (color piece) else getCell (b ! r) c)"
    by blast
  have "currentPiece cl = Some piece \<and> board cl = b \<and> position cl = pos \<longrightarrow>
          mergePiece cl st =
            Inr ((checkLines cl newBoard (st\<lparr>board := newBoard\<rparr>))\<lparr>canHold := True\<rparr>)"
    using nb(1) by (auto simp: mergePiece_def)
  with nb show ?thesis by blast
qed

text \<open>The T piece with its upper row above the board, over columns 4 to 6 of the stacked
  board: only its lower row is written, into row 0.\<close>

theorem lock_changes_only_covered_cells_witness:
  "rowsOnBoard (board stackedState) (shape (createRandomTetromino TypeT)) \<lparr>pos_x = 4, pos_y = - 1\<rparr>
   \<and> lockPiece (board stackedState) (createRandomTetromino TypeT) \<lparr>pos_x = 4, pos_y = - 1\<rparr>
       = Inr (map (\<lambda>i. if 4 \<le> i \<and> i < 7 then Color ''#a000f0'' else Null) [0..<10]
                # replicate 19 (partRow 4 6))
   \<and> (\<exists>newBoard.
         lockPiece (board stackedState) (createRandomTetromino TypeT) \<lparr>pos_x = 4, pos_y = - 1\<rparr>
           = Inr newBoard
         \<and> length newBoard = length (board stackedState)
         \<and> (\<forall>r < length (board stackedState). \<forall>c.
               getCell (newBoard ! r) c =
                 (if covered (shape (createRandomTetromino TypeT)) \<lparr>pos_x = 4, pos_y = - 1\<rparr> r c
                  then Color (color (createRandomTetromino TypeT))
                  else getCell (board stackedState ! r) c))
         \<and> mergePiece
               (stackedState\<lparr>currentPiece := Some (createRandomTetromino TypeT),
                             position := \<lparr>pos_x = 4, pos_y = - 1\<rparr>\<rparr>) playingState
             = Inr ((checkLines
                      (stackedState\<lparr>currentPiece := Some (createRandomTetromino TypeT),
                                    position := \<lparr>pos_x = 4, pos_y = - 1\<rparr>\<rparr>)
                      newBoard (playingState\<lparr>board := newBoard\<rparr>))\<lparr>canHold := True\<rparr>))"
proof -
  let ?cl = "stackedState\<lparr>currentPiece := Some (createRandomTetromino TypeT),
                          position := \<lparr>pos_x = 4, pos_y = - 1\<rparr>\<rparr>"
  have c: "currentPiece ?cl = Some (createRandomTetromino TypeT) \<and> board ?cl = board stackedState
             \<and> position ?cl = \<lparr>pos_x = 4, pos_y = - 1\<rparr>" by simp
  have h: "rowsOnBoard (board stackedState) (shape (createRandomTetromino TypeT))
             \<lparr>pos_x = 4, pos_y = - 1\<rparr>" by code_simp
  have e: "lockPiece (board stackedState) (createRandomTetromino TypeT) \<lparr>pos_x = 4, pos_y = - 1\<rparr>
       = Inr (map (\<lambda>i. if 4 \<le> i \<and> i < 7 then Color ''#a000f0'' else Null) [0..<10]
                # replicate 19 (partRow 4 6))" by code_simp
  from lock_changes_only_covered_cells [OF h, of ?cl playingState] c h e show ?thesis
    by blast
qed

end
